theory Spec2Isabelle
  imports Complex_Main
begin

section \<open>Data model of \<^verbatim>\<open>components.py\<close>\<close>

text \<open>
  The two enumerations of the source.  Both have a member called \<^verbatim>\<open>IDLE\<close>; the station's
  one is written \<open>Station_IDLE\<close> here.
\<close>

datatype TruckStatus = IDLE | MINING | UNLOADING | TRAVELING_TO_MINE | TRAVELING_TO_STATION

datatype StationStatus = Station_IDLE | BUSY

text \<open>
  The exceptions the modelled code can raise: \<^verbatim>\<open>random.randint\<close> on an empty range, a
  division by zero, and the read of \<^verbatim>\<open>.name\<close> of an attached truck that is \<^verbatim>\<open>None\<close>.
\<close>

datatype error = ValueError | ZeroDivisionError | AttributeError

text \<open>
  \<^verbatim>\<open>MiningRun\<close>: the dataclass fields in their order, followed by the four durations that
  \<^verbatim>\<open>initialize_simulation_definition\<close> (and the unit tests) assign as attributes of the object
  after it is constructed.  All are Python integers.
\<close>

record MiningRun =
  num_stations :: int
  num_trucks :: int
  run_hours :: int
  total_loads_collected :: int
  total_load_count :: int
  total_idle_truck_time :: int
  total_busy_truck_time :: int
  total_idle_station_time :: int
  total_busy_station_time :: int
  verbose_trucks :: bool
  verbose_stations :: bool
  min_mining_hours :: int
  max_mining_hours :: int
  slice_time :: int
  inbound_travel_time :: int
  outbound_travel_time :: int
  unloading_time :: int
  idle_wait_time :: int

text \<open>
  The global random number generator is a sequence of results: \<open>rng k\<close> is what the
  \<open>k\<close>-th call of \<^verbatim>\<open>random.randint\<close> of the run returns, and the number of calls made so
  far is threaded through the functions that draw.
\<close>

type_synonym rng = "nat \<Rightarrow> int"


text \<open>
  \<^verbatim>\<open>int(60/self.slice_time)\<close> divides in floating point and truncates towards zero.  The
  quotient of 60 by an integer is either an integer or at least \<open>1/60\<close> away from one, so the
  rounding of the division never changes the truncated value: it is the integer quotient
  rounded towards zero.  A slice of zero raises.
\<close>

definition trunc_div :: "int \<Rightarrow> int \<Rightarrow> int" where
  "trunc_div a b = sgn a * sgn b * (\<bar>a\<bar> div \<bar>b\<bar>)"

definition run_time_slices :: "MiningRun \<Rightarrow> error + int" where
  "run_time_slices p =
     (if slice_time p = 0 then Inl ZeroDivisionError
      else Inr (run_hours p * trunc_div 60 (slice_time p)))"

text \<open>\<^verbatim>\<open>random.randint(a, b)\<close> raises \<^verbatim>\<open>ValueError\<close> when \<open>b < a\<close>.\<close>

definition generate_mining_time :: "MiningRun \<Rightarrow> rng \<Rightarrow> nat \<Rightarrow> error + (int \<times> nat)" where
  "generate_mining_time p rng k =
     (if max_mining_hours p < min_mining_hours p then Inl ValueError
      else Inr (rng k * 60, Suc k))"

subsection \<open>Station\<close>

text \<open>
  A station refers to the truck it unloads.  The reference is the identity of the truck
  object, a number here (in a scheduler run: the truck's position in the truck list).
  Of the messages printed in verbose mode the model keeps what can fail: two of them read
  the name of the attached truck, which raises \<^verbatim>\<open>AttributeError\<close> when no truck is attached.
\<close>

type_synonym truck_ref = nat

record Station =
  station_name :: string
  busy_minutes :: int
  idle_minutes :: int
  station_state :: StationStatus
  attached_truck :: "truck_ref option"
  station_verbose :: bool
  station_parameters :: MiningRun
  station_completed_loads :: int

definition Station_init :: "MiningRun \<Rightarrow> string \<Rightarrow> bool \<Rightarrow> Station" where
  "Station_init p nm vb =
     \<lparr>station_name = nm, busy_minutes = 0, idle_minutes = 0, station_state = Station_IDLE,
      attached_truck = None, station_verbose = vb, station_parameters = p,
      station_completed_loads = 0\<rparr>"

definition attach :: "Station \<Rightarrow> truck_ref \<Rightarrow> Station" where
  "attach s truck = s\<lparr>attached_truck := Some truck, station_state := BUSY\<rparr>"

text \<open>
  \<^verbatim>\<open>release\<close> and \<^verbatim>\<open>cycle\<close> return the station as the call leaves it, and the exception
  if the call raised one: the verbose message of \<^verbatim>\<open>release\<close> comes before its assignments,
  and in \<^verbatim>\<open>cycle\<close> after the busy minutes were added.
\<close>

definition release :: "Station \<Rightarrow> Station \<times> error option" where
  "release s =
     (if station_verbose s \<and> attached_truck s = None then (s, Some AttributeError)
      else (s\<lparr>station_state := Station_IDLE,
              station_completed_loads := station_completed_loads s + 1,
              attached_truck := None\<rparr>, None))"

definition Station_cycle :: "Station \<Rightarrow> Station \<times> error option" where
  "Station_cycle s =
     (if station_state s = BUSY
      then release (s\<lparr>busy_minutes := busy_minutes s + slice_time (station_parameters s)\<rparr>)
      else (s\<lparr>idle_minutes := idle_minutes s + slice_time (station_parameters s)\<rparr>, None))"

subsection \<open>Truck\<close>

text \<open>
  \<^verbatim>\<open>time_logs\<close> is a dictionary with exactly one key per member of \<^verbatim>\<open>TruckStatus\<close> (the
  member's name), created in the constructor and only ever updated at those keys: a function
  from the status to the minutes.
\<close>

record Truck =
  truck_name :: string
  time_logs :: "TruckStatus \<Rightarrow> int"
  truck_state :: TruckStatus
  completed_loads :: int
  truck_parameters :: MiningRun
  truck_verbose :: bool
  remaining_time :: int
  current_cycle_mining_time :: int

definition Truck_init :: "MiningRun \<Rightarrow> string \<Rightarrow> rng \<Rightarrow> nat \<Rightarrow> error + (Truck \<times> nat)" where
  "Truck_init p nm rng k =
     (case generate_mining_time p rng k of
        Inl e \<Rightarrow> Inl e
      | Inr (m, k') \<Rightarrow>
          Inr (\<lparr>truck_name = nm, time_logs = (\<lambda>_. 0), truck_state = MINING,
                completed_loads = 0, truck_parameters = p, truck_verbose = verbose_trucks p,
                remaining_time = m, current_cycle_mining_time = m\<rparr>, k'))"

text \<open>
  The first station of the list that is not busy, as its position in the list.  A verbose
  truck prints, for each busy station it passes, the name of the truck attached there.
\<close>

fun get_available_station :: "Truck \<Rightarrow> Station list \<Rightarrow> error + nat option" where
  "get_available_station t [] = Inr None"
| "get_available_station t (s # ss) =
     (if station_state s = BUSY
      then (if truck_verbose t \<and> attached_truck s = None then Inl AttributeError
            else map_sum id (map_option Suc) (get_available_station t ss))
      else Inr (Some 0))"

definition log_add :: "Truck \<Rightarrow> TruckStatus \<Rightarrow> int \<Rightarrow> Truck" where
  "log_add t st d = t\<lparr>time_logs := (time_logs t)(st := time_logs t st + d)\<rparr>"

definition transition_from_mining :: "Truck \<Rightarrow> Truck" where
  "transition_from_mining t =
     (log_add t MINING (current_cycle_mining_time t))
       \<lparr>truck_state := TRAVELING_TO_STATION,
        remaining_time := inbound_travel_time (truck_parameters t)\<rparr>"

definition transition_from_inbound ::
    "truck_ref \<Rightarrow> Truck \<Rightarrow> Station list \<Rightarrow> error + (Truck \<times> Station list)" where
  "transition_from_inbound self t stations =
     (let t1 = log_add t TRAVELING_TO_STATION (inbound_travel_time (truck_parameters t))
      in case get_available_station t1 stations of
           Inl e \<Rightarrow> Inl e
         | Inr (Some i) \<Rightarrow>
             Inr (t1\<lparr>truck_state := UNLOADING,
                     remaining_time := unloading_time (truck_parameters t)\<rparr>,
                  stations[i := attach (stations ! i) self])
         | Inr None \<Rightarrow>
             Inr (t1\<lparr>truck_state := IDLE,
                     remaining_time := idle_wait_time (truck_parameters t)\<rparr>,
                  stations))"

definition transition_from_unloading :: "Truck \<Rightarrow> Truck" where
  "transition_from_unloading t =
     (log_add t UNLOADING (unloading_time (truck_parameters t)))
       \<lparr>completed_loads := completed_loads t + 1,
        truck_state := TRAVELING_TO_MINE,
        remaining_time := outbound_travel_time (truck_parameters t)\<rparr>"

definition transition_from_idle ::
    "truck_ref \<Rightarrow> Truck \<Rightarrow> Station list \<Rightarrow> error + (Truck \<times> Station list)" where
  "transition_from_idle self t stations =
     transition_from_inbound self
       (log_add t IDLE (idle_wait_time (truck_parameters t))) stations"

definition transition_from_outbound :: "Truck \<Rightarrow> rng \<Rightarrow> nat \<Rightarrow> error + (Truck \<times> nat)" where
  "transition_from_outbound t rng k =
     (let t1 = (log_add t TRAVELING_TO_MINE (outbound_travel_time (truck_parameters t)))
                 \<lparr>truck_state := MINING\<rparr>
      in case generate_mining_time (truck_parameters t) rng k of
           Inl e \<Rightarrow> Inl e
         | Inr (m, k') \<Rightarrow> Inr (t1\<lparr>remaining_time := m, current_cycle_mining_time := m\<rparr>, k'))"

text \<open>
  \<^verbatim>\<open>Truck.cycle\<close>.  The test of the source is the truthiness of \<^verbatim>\<open>remaining_time\<close>, that is,
  whether it differs from zero.
\<close>

definition Truck_cycle ::
    "rng \<Rightarrow> truck_ref \<Rightarrow> Truck \<Rightarrow> Station list \<Rightarrow> nat \<Rightarrow> error + (Truck \<times> Station list \<times> nat)"
  where
  "Truck_cycle rng self t stations k =
     (if remaining_time t \<noteq> 0
      then Inr (t\<lparr>remaining_time := remaining_time t - slice_time (truck_parameters t)\<rparr>,
                stations, k)
      else case truck_state t of
             MINING \<Rightarrow> Inr (transition_from_mining t, stations, k)
           | TRAVELING_TO_STATION \<Rightarrow>
               (case transition_from_inbound self t stations of
                  Inl e \<Rightarrow> Inl e
                | Inr (t', ss) \<Rightarrow> Inr (t', ss, k))
           | UNLOADING \<Rightarrow> Inr (transition_from_unloading t, stations, k)
           | IDLE \<Rightarrow>
               (case transition_from_idle self t stations of
                  Inl e \<Rightarrow> Inl e
                | Inr (t', ss) \<Rightarrow> Inr (t', ss, k))
           | TRAVELING_TO_MINE \<Rightarrow>
               (case transition_from_outbound t rng k of
                  Inl e \<Rightarrow> Inl e
                | Inr (t', k') \<Rightarrow> Inr (t', stations, k')))"

subsection \<open>Efficiency percentages\<close>






section \<open>The scheduler of \<^verbatim>\<open>simulate.py\<close>\<close>

text \<open>
  The keys of the census counter are members of either enumeration; a cell of the
  time-series table is a text or a number.
\<close>

datatype activity = Truck_activity TruckStatus | Station_activity StationStatus

datatype cell = Text string | Number int

definition TIME_SLICE_REPORT_ORDER :: "activity list" where
  "TIME_SLICE_REPORT_ORDER =
     [Truck_activity MINING, Truck_activity TRAVELING_TO_STATION, Truck_activity IDLE,
      Truck_activity UNLOADING, Truck_activity TRAVELING_TO_MINE,
      Station_activity BUSY, Station_activity Station_IDLE]"

fun activity_name :: "activity \<Rightarrow> string" where
  "activity_name (Truck_activity IDLE) = ''IDLE''"
| "activity_name (Truck_activity MINING) = ''MINING''"
| "activity_name (Truck_activity UNLOADING) = ''UNLOADING''"
| "activity_name (Truck_activity TRAVELING_TO_MINE) = ''TRAVELING_TO_MINE''"
| "activity_name (Truck_activity TRAVELING_TO_STATION) = ''TRAVELING_TO_STATION''"
| "activity_name (Station_activity Station_IDLE) = ''IDLE''"
| "activity_name (Station_activity BUSY) = ''BUSY''"

definition initialize_time_slice_report :: "cell list list" where
  "initialize_time_slice_report =
     [[Text [], Text ''Mining Truck'', Text [], Text [], Text [], Text [], Text [],
       Text ''Unloading Station''],
      Text ''Slice Count'' # map (\<lambda>column. Text (activity_name column)) TIME_SLICE_REPORT_ORDER]"

definition initialize_simulation_definition ::
    "int \<Rightarrow> int \<Rightarrow> int \<Rightarrow> bool \<Rightarrow> bool \<Rightarrow> MiningRun" where
  "initialize_simulation_definition hours truck_count station_count vt vs =
     \<lparr>num_stations = station_count, num_trucks = truck_count, run_hours = hours,
      total_loads_collected = 0, total_load_count = 0, total_idle_truck_time = 0,
      total_busy_truck_time = 0, total_idle_station_time = 0, total_busy_station_time = 0,
      verbose_trucks = vt, verbose_stations = vs, min_mining_hours = 1, max_mining_hours = 5,
      slice_time = 5, inbound_travel_time = 30, outbound_travel_time = 30,
      unloading_time = 5, idle_wait_time = 5\<rparr>"

text \<open>Decimal digits of a number, for the names \<^verbatim>\<open>f'truck {truck_num}'\<close>.\<close>

fun str_of_nat :: "nat \<Rightarrow> string" where
  "str_of_nat n =
     (if n < 10 then [char_of (48 + n)]
      else str_of_nat (n div 10) @ [char_of (48 + n mod 10)])"

declare str_of_nat.simps [simp del]

text \<open>
  \<^verbatim>\<open>range(n)\<close> is empty for \<open>n \<le> 0\<close>.  Constructing a truck draws its first mining time,
  so creating the trucks consumes random numbers and can raise.
\<close>

fun construct_trucks :: "MiningRun \<Rightarrow> rng \<Rightarrow> nat list \<Rightarrow> nat \<Rightarrow> error + (Truck list \<times> nat)" where
  "construct_trucks p rng [] k = Inr ([], k)"
| "construct_trucks p rng (truck_num # ns) k =
     (case Truck_init p (''truck '' @ str_of_nat truck_num) rng k of
        Inl e \<Rightarrow> Inl e
      | Inr (t, k') \<Rightarrow>
          (case construct_trucks p rng ns k' of
             Inl e \<Rightarrow> Inl e
           | Inr (ts, k'') \<Rightarrow> Inr (t # ts, k'')))"

definition initialize_trucks :: "MiningRun \<Rightarrow> rng \<Rightarrow> nat \<Rightarrow> error + (Truck list \<times> nat)" where
  "initialize_trucks p rng k = construct_trucks p rng [0..<nat (num_trucks p)] k"

definition initialize_unloading_stations :: "MiningRun \<Rightarrow> Station list" where
  "initialize_unloading_stations p =
     map (\<lambda>station_num.
            Station_init p (''station '' @ str_of_nat station_num) (verbose_stations p))
       [0..<nat (num_stations p)]"

text \<open>
  One pass of the truck loop of a time slice: each truck is cycled against the stations as
  the trucks before it left them, and its state after the cycle is counted.  The position
  of the truck in the list is its identity.
\<close>

fun cycle_trucks ::
    "rng \<Rightarrow> truck_ref \<Rightarrow> Truck list \<Rightarrow> Station list \<Rightarrow> nat \<Rightarrow> (activity \<Rightarrow> int)
      \<Rightarrow> error + (Truck list \<times> Station list \<times> nat \<times> (activity \<Rightarrow> int))" where
  "cycle_trucks rng i [] stations k slice_report = Inr ([], stations, k, slice_report)"
| "cycle_trucks rng i (t # ts) stations k slice_report =
     (case Truck_cycle rng i t stations k of
        Inl e \<Rightarrow> Inl e
      | Inr (t', stations', k') \<Rightarrow>
          (case cycle_trucks rng (Suc i) ts stations' k'
                  (slice_report(Truck_activity (truck_state t') :=
                     slice_report (Truck_activity (truck_state t')) + 1)) of
             Inl e \<Rightarrow> Inl e
           | Inr (ts', stations'', k'', slice_report') \<Rightarrow>
               Inr (t' # ts', stations'', k'', slice_report')))"

text \<open>The station loop of a time slice; an exception ends the run.\<close>

fun cycle_stations :: "Station list \<Rightarrow> error + Station list" where
  "cycle_stations [] = Inr []"
| "cycle_stations (s # ss) =
     (case Station_cycle s of
        (s', Some e) \<Rightarrow> Inl e
      | (s', None) \<Rightarrow>
          (case cycle_stations ss of
             Inl e \<Rightarrow> Inl e
           | Inr ss' \<Rightarrow> Inr (s' # ss')))"

fun count_stations :: "Station list \<Rightarrow> (activity \<Rightarrow> int) \<Rightarrow> (activity \<Rightarrow> int)" where
  "count_stations [] slice_report = slice_report"
| "count_stations (s # ss) slice_report =
     count_stations ss
       (slice_report(Station_activity (station_state s) :=
          slice_report (Station_activity (station_state s)) + 1))"

text \<open>
  The state of a run between two time slices: the table so far, the stations, the trucks
  and the number of random numbers drawn.
\<close>

type_synonym run_state = "cell list list \<times> Station list \<times> Truck list \<times> nat"

definition simulate_slice :: "rng \<Rightarrow> int \<Rightarrow> run_state \<Rightarrow> error + run_state" where
  "simulate_slice rng time_slice w =
     (case w of (time_slice_report, stations, trucks, k) \<Rightarrow>
        (case cycle_stations stations of
           Inl e \<Rightarrow> Inl e
         | Inr cycled \<Rightarrow>
        (case cycle_trucks rng 0 trucks cycled k (\<lambda>_. 0) of
           Inl e \<Rightarrow> Inl e
         | Inr (trucks', stations', k', slice_report) \<Rightarrow>
             (let slice_report' = count_stations stations' slice_report;
                  time_slice_report_line =
                    Number time_slice #
                    map (\<lambda>reportable_activity.
                           if slice_report' reportable_activity \<noteq> 0
                           then Number (slice_report' reportable_activity) else Number 0)
                      TIME_SLICE_REPORT_ORDER
              in Inr (time_slice_report @ [time_slice_report_line], stations', trucks', k')))))"

fun simulate_slices :: "rng \<Rightarrow> int list \<Rightarrow> run_state \<Rightarrow> error + run_state" where
  "simulate_slices rng [] w = Inr w"
| "simulate_slices rng (time_slice # rest) w =
     (case simulate_slice rng time_slice w of
        Inl e \<Rightarrow> Inl e
      | Inr w' \<Rightarrow> simulate_slices rng rest w')"

definition run_simulation ::
    "MiningRun \<Rightarrow> Station list \<Rightarrow> Truck list \<Rightarrow> rng \<Rightarrow> nat \<Rightarrow> error + run_state" where
  "run_simulation p stations trucks rng k =
     (case run_time_slices p of
        Inl e \<Rightarrow> Inl e
      | Inr n \<Rightarrow>
          simulate_slices rng (map int [0..<nat n])
            (initialize_time_slice_report, stations, trucks, k))"

subsection \<open>Sequences of station operations\<close>

text \<open>
  The operations a caller can apply to a station, the station as an operation leaves it
  (whether it returned or raised), and the property of a station that its reference to a
  truck is set exactly when it is busy.
\<close>

datatype station_op = Attach truck_ref | Release | Cycle

fun apply_station_op :: "Station \<Rightarrow> station_op \<Rightarrow> Station \<times> error option" where
  "apply_station_op s (Attach truck) = (attach s truck, None)"
| "apply_station_op s Release = release s"
| "apply_station_op s Cycle = Station_cycle s"

definition after_station_op :: "Station \<Rightarrow> station_op \<Rightarrow> Station" where
  "after_station_op s x = fst (apply_station_op s x)"

definition station_invariant :: "Station \<Rightarrow> bool" where
  "station_invariant s \<longleftrightarrow> (attached_truck s \<noteq> None) = (station_state s = BUSY)"

text \<open>What a run returned, for reading results off a finished run.\<close>

definition succeeded :: "error + 'a \<Rightarrow> bool" where
  "succeeded r = (case r of Inl e \<Rightarrow> False | Inr x \<Rightarrow> True)"

definition final_report :: "error + run_state \<Rightarrow> cell list list" where
  "final_report r = (case r of Inl e \<Rightarrow> [] | Inr (rep, ss, ts, k) \<Rightarrow> rep)"

definition final_stations :: "error + run_state \<Rightarrow> Station list" where
  "final_stations r = (case r of Inl e \<Rightarrow> [] | Inr (rep, ss, ts, k) \<Rightarrow> ss)"

definition final_trucks :: "error + run_state \<Rightarrow> Truck list" where
  "final_trucks r = (case r of Inl e \<Rightarrow> [] | Inr (rep, ss, ts, k) \<Rightarrow> ts)"

definition final_draws :: "error + run_state \<Rightarrow> nat" where
  "final_draws r = (case r of Inl e \<Rightarrow> 0 | Inr (rep, ss, ts, k) \<Rightarrow> k)"

subsection \<open>Observations of a truck\<close>

text \<open>
  The duration with which a truck entered its current state: the mining time drawn for the
  current mining cycle, or the configured duration of the state.
\<close>

definition state_duration :: "Truck \<Rightarrow> int" where
  "state_duration t =
     (case truck_state t of
        MINING \<Rightarrow> current_cycle_mining_time t
      | TRAVELING_TO_STATION \<Rightarrow> inbound_travel_time (truck_parameters t)
      | UNLOADING \<Rightarrow> unloading_time (truck_parameters t)
      | IDLE \<Rightarrow> idle_wait_time (truck_parameters t)
      | TRAVELING_TO_MINE \<Rightarrow> outbound_travel_time (truck_parameters t))"

subsection \<open>Durations measured in slices\<close>

text \<open>
  A duration that is a non-negative multiple of the slice of a configuration; a
  configuration all of whose fixed durations are such; a generator all of whose mining
  times (the hours drawn, times 60) are such.
\<close>

definition slice_multiple :: "MiningRun \<Rightarrow> int \<Rightarrow> bool" where
  "slice_multiple p d \<longleftrightarrow> 0 \<le> d \<and> slice_time p dvd d"

definition durations_in_slices :: "MiningRun \<Rightarrow> bool" where
  "durations_in_slices p \<longleftrightarrow>
     slice_multiple p (inbound_travel_time p) \<and> slice_multiple p (outbound_travel_time p)
     \<and> slice_multiple p (unloading_time p) \<and> slice_multiple p (idle_wait_time p)"

definition draws_in_slices :: "MiningRun \<Rightarrow> rng \<Rightarrow> bool" where
  "draws_in_slices p rng \<longleftrightarrow> (\<forall>k. slice_multiple p (rng k * 60))"

text \<open>
  A sequence of calls of \<^verbatim>\<open>cycle\<close> on one truck, each with the station list of that call.
\<close>

fun Truck_cycles ::
    "rng \<Rightarrow> truck_ref \<Rightarrow> Truck \<Rightarrow> Station list list \<Rightarrow> nat \<Rightarrow> error + (Truck \<times> nat)" where
  "Truck_cycles rng self t [] k = Inr (t, k)"
| "Truck_cycles rng self t (stations # rest) k =
     (case Truck_cycle rng self t stations k of
        Inl e \<Rightarrow> Inl e
      | Inr (t', stations', k') \<Rightarrow> Truck_cycles rng self t' rest k')"

subsection \<open>Accounting of a truck's time\<close>

text \<open>
  The sum of the five accumulators of \<^verbatim>\<open>time_logs\<close>, and that sum together with the minutes
  already spent in the current state (the duration it was entered with, less what remains).
\<close>

definition total_time_logs :: "Truck \<Rightarrow> int" where
  "total_time_logs t =
     time_logs t IDLE + time_logs t MINING + time_logs t UNLOADING
     + time_logs t TRAVELING_TO_MINE + time_logs t TRAVELING_TO_STATION"

definition accounted_minutes :: "Truck \<Rightarrow> int" where
  "accounted_minutes t = total_time_logs t + (state_duration t - remaining_time t)"

text \<open>
  The states of a run at the start of each of its time slices, and for the truck at
  position \<open>i\<close> the number of those slices that found its counter at zero (on which it
  made a transition), and of those on which it made the transition out of \<^verbatim>\<open>IDLE\<close>.
\<close>

definition trucks_of :: "run_state \<Rightarrow> Truck list" where
  "trucks_of w = (case w of (time_slice_report, stations, trucks, k) \<Rightarrow> trucks)"

fun slice_states :: "rng \<Rightarrow> int list \<Rightarrow> run_state \<Rightarrow> run_state list" where
  "slice_states rng [] w = []"
| "slice_states rng (time_slice # rest) w =
     w # (case simulate_slice rng time_slice w of
            Inl e \<Rightarrow> []
          | Inr w' \<Rightarrow> slice_states rng rest w')"

definition transition_slices :: "rng \<Rightarrow> int list \<Rightarrow> run_state \<Rightarrow> nat \<Rightarrow> nat" where
  "transition_slices rng slices w i =
     length (filter (\<lambda>w'. remaining_time (trucks_of w' ! i) = 0) (slice_states rng slices w))"

definition idle_transitions :: "rng \<Rightarrow> int list \<Rightarrow> run_state \<Rightarrow> nat \<Rightarrow> nat" where
  "idle_transitions rng slices w i =
     length (filter (\<lambda>w'. remaining_time (trucks_of w' ! i) = 0
                          \<and> truck_state (trucks_of w' ! i) = IDLE)
               (slice_states rng slices w))"

subsection \<open>Further notions used in the statements\<close>

text \<open>
  A truck can scan a station list safely when it prints no messages or every station of
  the list has its truck attached exactly when busy.
\<close>

definition scan_safe :: "Truck \<Rightarrow> Station list \<Rightarrow> bool" where
  "scan_safe t ss \<longleftrightarrow> (truck_verbose t \<longrightarrow> list_all station_invariant ss)"

text \<open>A truck whose configuration has its mining bounds in order, so that drawing succeeds.\<close>

definition bounds_ordered :: "Truck \<Rightarrow> bool" where
  "bounds_ordered t \<longleftrightarrow>
     min_mining_hours (truck_parameters t) \<le> max_mining_hours (truck_parameters t)"

section \<open>Example configurations\<close>

text \<open>Concrete inputs on which the theorems below are instantiated.\<close>

definition example_parameters :: MiningRun where
  "example_parameters = initialize_simulation_definition 1 1 1 False False"

definition example_station :: Station where
  "example_station = Station_init example_parameters ''station 0'' False"

text \<open>
  A configuration with a slice of one hour and every duration one hour, a generator that
  always draws one hour, and the truck and station lists created from them.
\<close>

definition hourly_parameters :: MiningRun where
  "hourly_parameters =
     (initialize_simulation_definition 6 2 1 False False)
       \<lparr>slice_time := 60, inbound_travel_time := 60, outbound_travel_time := 60,
        unloading_time := 60, idle_wait_time := 60\<rparr>"

definition example_rng :: rng where
  "example_rng k = 1"

definition hourly_trucks :: "Truck list" where
  "hourly_trucks =
     (case initialize_trucks hourly_parameters example_rng 0 of
        Inl e \<Rightarrow> [] | Inr (ts, k) \<Rightarrow> ts)"

definition hourly_stations :: "Station list" where
  "hourly_stations = initialize_unloading_stations hourly_parameters"

definition hourly_start :: run_state where
  "hourly_start = (initialize_time_slice_report, hourly_stations, hourly_trucks, 2)"

text \<open>
  A truck as the constructor makes it when one hour is drawn, and a station that was
  attached to.
\<close>

definition example_truck :: Truck where
  "example_truck =
     \<lparr>truck_name = ''unnamed'', time_logs = (\<lambda>_. 0), truck_state = MINING,
      completed_loads = 0, truck_parameters = example_parameters, truck_verbose = False,
      remaining_time = 60, current_cycle_mining_time = 60\<rparr>"

definition busy_station :: Station where
  "busy_station = attach example_station 7"

text \<open>The trucks and stations of the example configuration, and its run of one hour.\<close>

definition example_trucks :: "Truck list" where
  "example_trucks =
     (case initialize_trucks example_parameters example_rng 0 of
        Inl e \<Rightarrow> [] | Inr (ts, k) \<Rightarrow> ts)"

definition example_stations :: "Station list" where
  "example_stations = initialize_unloading_stations example_parameters"

definition example_run :: "error + run_state" where
  "example_run = run_simulation example_parameters example_stations example_trucks example_rng 1"

text \<open>A station that prints messages, and a truck that waits idle with its counter at zero.\<close>

definition verbose_station :: Station where
  "verbose_station = Station_init example_parameters ''station 1'' True"

definition waiting_truck :: Truck where
  "waiting_truck = example_truck\<lparr>truck_state := IDLE, remaining_time := 0\<rparr>"



text \<open>
  The example configuration with a slice of seven minutes, its entities, and its runs of
  one hour and of seven hours.
\<close>

definition seven_minute_parameters :: MiningRun where
  "seven_minute_parameters = example_parameters\<lparr>slice_time := 7\<rparr>"

definition seven_minute_trucks :: "Truck list" where
  "seven_minute_trucks =
     (case initialize_trucks seven_minute_parameters example_rng 0 of
        Inl e \<Rightarrow> [] | Inr (ts, k) \<Rightarrow> ts)"

definition seven_minute_stations :: "Station list" where
  "seven_minute_stations = initialize_unloading_stations seven_minute_parameters"

definition seven_minute_run :: "error + run_state" where
  "seven_minute_run =
     run_simulation seven_minute_parameters seven_minute_stations seven_minute_trucks
       example_rng 1"

definition seven_hour_run :: "error + run_state" where
  "seven_hour_run =
     run_simulation (seven_minute_parameters\<lparr>run_hours := 7\<rparr>) seven_minute_stations
       seven_minute_trucks example_rng 1"

text \<open>
  A configuration with negative counts, a negative duration, mining bounds in the wrong
  order and a slice of seven minutes; and the example configuration with the mining bounds
  in the wrong order.
\<close>

definition unchecked_parameters :: MiningRun where
  "unchecked_parameters =
     (initialize_simulation_definition 1 (- 1) (- 1) False False)
       \<lparr>slice_time := 7, min_mining_hours := 5, max_mining_hours := 1,
        inbound_travel_time := - 30\<rparr>"

definition reversed_bounds_parameters :: MiningRun where
  "reversed_bounds_parameters =
     example_parameters\<lparr>min_mining_hours := 5, max_mining_hours := 1\<rparr>"

text \<open>
  The hourly configuration run for nine hours, in which one truck draws a new mining
  time, and a generator that agrees with the example one on the first three draws only.
\<close>

definition nine_hour_parameters :: MiningRun where
  "nine_hour_parameters = hourly_parameters\<lparr>run_hours := 9\<rparr>"

definition nine_hour_run :: "error + run_state" where
  "nine_hour_run =
     run_simulation nine_hour_parameters hourly_stations hourly_trucks example_rng 2"

definition late_rng :: rng where
  "late_rng k = (if k < 3 then 1 else 4)"

section \<open>Stations\<close>

lemma get_available_station_verbose:
  "truck_verbose t' = truck_verbose t \<Longrightarrow>
   get_available_station t' ss = get_available_station t ss"
  by (induction ss) simp_all

lemma get_available_station_first:
  "i < length ss \<Longrightarrow> station_state (ss ! i) = Station_IDLE \<Longrightarrow>
   \<forall>j < i. station_state (ss ! j) = BUSY \<Longrightarrow> scan_safe t ss \<Longrightarrow>
   get_available_station t ss = Inr (Some i)"
proof (induction ss arbitrary: i)
  case Nil
  then show ?case by simp
next
  case (Cons s ss)
  show ?case
  proof (cases i)
    case 0
    with Cons.prems show ?thesis by simp
  next
    case (Suc i')
    with Cons.prems have busy: "station_state s = BUSY" by auto
    from Cons.prems(4) busy have att: "\<not> (truck_verbose t \<and> attached_truck s = None)"
      by (auto simp: scan_safe_def station_invariant_def)
    from Cons.prems(4) have "scan_safe t ss" by (simp add: scan_safe_def)
    with Suc Cons.prems have "get_available_station t ss = Inr (Some i')"
      by (intro Cons.IH) auto
    with busy att Suc show ?thesis by simp
  qed
qed

lemma get_available_station_all_busy:
  "\<forall>s \<in> set ss. station_state s = BUSY \<Longrightarrow> scan_safe t ss \<Longrightarrow>
   get_available_station t ss = Inr None"
  by (induction ss) (auto simp: scan_safe_def station_invariant_def)

lemma get_available_station_Some:
  "get_available_station t ss = Inr (Some i) \<Longrightarrow> i < length ss"
proof (induction ss arbitrary: i)
  case Nil
  then show ?case by simp
next
  case (Cons s ss)
  show ?case
  proof (cases "station_state s = BUSY")
    case True
    with Cons.prems obtain i' where "get_available_station t ss = Inr (Some i')" "i = Suc i'"
      by (cases "get_available_station t ss") (auto split: if_splits)
    with Cons.IH show ?thesis by simp
  next
    case False
    with Cons.prems show ?thesis by simp
  qed
qed

text \<open>
  Claim C3.  \<^verbatim>\<open>attach\<close> makes a station busy and records the truck, and the next cycle
  of the station releases it again.  A cycle of a busy station (one with a truck attached,
  or one that prints no messages) adds one slice to its busy minutes and releases it at
  once: the station is idle again, has one more completed unload and no attached truck,
  whatever unloading time the configuration gives the trucks.  A cycle of an idle station
  adds one slice to its idle minutes and changes nothing else.
\<close>

theorem Station_attach_release_cycle:
  "station_state (attach s truck) = BUSY \<and> attached_truck (attach s truck) = Some truck
   \<and> Station_cycle (attach s truck) =
        (s\<lparr>busy_minutes := busy_minutes s + slice_time (station_parameters s),
           station_state := Station_IDLE,
           station_completed_loads := station_completed_loads s + 1,
           attached_truck := None\<rparr>, None)
   \<and> (station_state s = BUSY \<and> (attached_truck s \<noteq> None \<or> \<not> station_verbose s) \<longrightarrow>
        Station_cycle s =
          (s\<lparr>busy_minutes := busy_minutes s + slice_time (station_parameters s),
             station_state := Station_IDLE,
             station_completed_loads := station_completed_loads s + 1,
             attached_truck := None\<rparr>, None))
   \<and> (station_state s = Station_IDLE \<longrightarrow>
        Station_cycle s =
          (s\<lparr>idle_minutes := idle_minutes s + slice_time (station_parameters s)\<rparr>, None))"
  by (auto simp: attach_def Station_cycle_def release_def)

theorem Station_attach_release_cycle_witness:
  "station_state (attach verbose_station 0) = BUSY
   \<and> attached_truck (attach verbose_station 0) \<noteq> None
   \<and> station_state (fst (Station_cycle (attach verbose_station 0))) = Station_IDLE
   \<and> busy_minutes (fst (Station_cycle (attach verbose_station 0))) = 5
   \<and> station_completed_loads (fst (Station_cycle (attach verbose_station 0))) = 1
   \<and> attached_truck (fst (Station_cycle (attach verbose_station 0))) = None
   \<and> snd (Station_cycle (attach verbose_station 0)) = None
   \<and> station_state example_station = Station_IDLE
   \<and> idle_minutes (fst (Station_cycle example_station)) = 5
   \<and> busy_minutes (fst (Station_cycle example_station)) = 0
   \<and> snd (Station_cycle example_station) = None"
  using Station_attach_release_cycle [of "attach verbose_station 0" 0]
    Station_attach_release_cycle [of example_station 0]
  by (simp add: verbose_station_def example_station_def example_parameters_def Station_init_def
      attach_def initialize_simulation_definition_def)

subsection \<open>The station invariant\<close>

lemma station_invariant_init: "station_invariant (Station_init p nm vb)"
  by (simp add: station_invariant_def Station_init_def)

lemma station_invariant_attach: "station_invariant (attach s truck)"
  by (simp add: station_invariant_def attach_def)

lemma station_invariant_release: "station_invariant s \<Longrightarrow> station_invariant (fst (release s))"
  by (auto simp: station_invariant_def release_def)

lemma station_invariant_cycle:
  "station_invariant s \<Longrightarrow> station_invariant (fst (Station_cycle s))"
  by (auto simp: station_invariant_def Station_cycle_def release_def)

lemma station_invariant_op: "station_invariant s \<Longrightarrow> station_invariant (after_station_op s x)"
  by (cases x)
    (simp_all add: after_station_op_def station_invariant_attach station_invariant_release
      station_invariant_cycle)

lemma station_invariant_ops:
  "station_invariant s \<Longrightarrow> station_invariant (foldl after_station_op s ops)"
  by (induction ops arbitrary: s) (simp_all add: station_invariant_op)

lemma cycle_stations_invariant:
  "cycle_stations ss = Inr ss' \<Longrightarrow> \<forall>s \<in> set ss. station_invariant s \<Longrightarrow>
   \<forall>s \<in> set ss'. station_invariant s"
proof (induction ss arbitrary: ss')
  case Nil
  then show ?case by simp
next
  case (Cons s ss)
  from Cons.prems(1) obtain s1 ss1 where
    s1: "Station_cycle s = (s1, None)" and rest: "cycle_stations ss = Inr ss1" and
    res: "ss' = s1 # ss1"
    by (auto split: prod.splits option.splits sum.splits)
  from Cons.prems(2) station_invariant_cycle [of s] s1 have "station_invariant s1" by simp
  moreover from Cons.IH [OF rest] Cons.prems(2) have "\<forall>s \<in> set ss1. station_invariant s"
    by simp
  ultimately show ?case using res by simp
qed

lemma transition_from_inbound_invariant:
  assumes "transition_from_inbound self t ss = Inr (t', ss')"
    and "\<forall>s \<in> set ss. station_invariant s"
  shows "\<forall>s \<in> set ss'. station_invariant s"
  using assms
  by (auto simp: transition_from_inbound_def Let_def station_invariant_attach
      split: option.splits sum.splits dest!: set_update_subset_insert [THEN subsetD])

lemma Truck_cycle_invariant:
  assumes "Truck_cycle rng self t ss k = Inr (t', ss', k')"
    and "\<forall>s \<in> set ss. station_invariant s"
  shows "\<forall>s \<in> set ss'. station_invariant s"
proof (cases "remaining_time t \<noteq> 0")
  case True
  with assms show ?thesis by (simp add: Truck_cycle_def)
next
  case False
  show ?thesis
  proof (cases "truck_state t")
    case IDLE
    with False assms(1) have "transition_from_inbound self
        (log_add t IDLE (idle_wait_time (truck_parameters t))) ss = Inr (t', ss')"
      by (auto simp: Truck_cycle_def transition_from_idle_def split: sum.splits prod.splits)
    then show ?thesis using assms(2) by (rule transition_from_inbound_invariant)
  next
    case MINING
    with False assms show ?thesis by (simp add: Truck_cycle_def)
  next
    case UNLOADING
    with False assms show ?thesis by (simp add: Truck_cycle_def)
  next
    case TRAVELING_TO_MINE
    with False assms show ?thesis
      by (auto simp: Truck_cycle_def split: sum.splits prod.splits)
  next
    case TRAVELING_TO_STATION
    with False assms(1) have "transition_from_inbound self t ss = Inr (t', ss')"
      by (auto simp: Truck_cycle_def split: sum.splits prod.splits)
    then show ?thesis using assms(2) by (rule transition_from_inbound_invariant)
  qed
qed

lemma cycle_trucks_invariant:
  "cycle_trucks rng i ts ss k c = Inr (ts', ss', k', c') \<Longrightarrow>
   \<forall>s \<in> set ss. station_invariant s \<Longrightarrow> \<forall>s \<in> set ss'. station_invariant s"
proof (induction ts arbitrary: i ss k c ts')
  case Nil
  then show ?case by simp
next
  case (Cons t ts)
  from Cons.prems(1) obtain t1 ss1 k1 ts1 where
    step: "Truck_cycle rng i t ss k = Inr (t1, ss1, k1)" and
    rest: "cycle_trucks rng (Suc i) ts ss1 k1
             (c(Truck_activity (truck_state t1) := c (Truck_activity (truck_state t1)) + 1))
           = Inr (ts1, ss', k', c')"
    by (auto split: sum.splits prod.splits)
  from Truck_cycle_invariant [OF step Cons.prems(2)]
  show ?case by (rule Cons.IH [OF rest])
qed

lemma simulate_slice_unfold:
  assumes "simulate_slice rng n (rep, ss, ts, k) = Inr (rep', ss', ts', k')"
  obtains cycled c where "cycle_stations ss = Inr cycled"
    and "cycle_trucks rng 0 ts cycled k (\<lambda>_. 0) = Inr (ts', ss', k', c)"
  using assms
  by (auto simp: simulate_slice_def Let_def split: sum.splits prod.splits)

lemma simulate_slice_invariant:
  assumes "simulate_slice rng n (rep, ss, ts, k) = Inr (rep', ss', ts', k')"
    and "\<forall>s \<in> set ss. station_invariant s"
  shows "\<forall>s \<in> set ss'. station_invariant s"
proof -
  from assms(1) obtain cycled c where
    st: "cycle_stations ss = Inr cycled" and
    tr: "cycle_trucks rng 0 ts cycled k (\<lambda>_. 0) = Inr (ts', ss', k', c)"
    by (rule simulate_slice_unfold)
  from cycle_stations_invariant [OF st assms(2)] show ?thesis
    by (rule cycle_trucks_invariant [OF tr])
qed

lemma simulate_slices_invariant:
  "simulate_slices rng slices (rep, ss, ts, k) = Inr (rep', ss', ts', k') \<Longrightarrow>
   \<forall>s \<in> set ss. station_invariant s \<Longrightarrow> \<forall>s \<in> set ss'. station_invariant s"
proof (induction slices arbitrary: rep ss ts k)
  case Nil
  then show ?case by simp
next
  case (Cons n slices)
  from Cons.prems(1) obtain rep1 ss1 ts1 k1 where
    step: "simulate_slice rng n (rep, ss, ts, k) = Inr (rep1, ss1, ts1, k1)" and
    rest: "simulate_slices rng slices (rep1, ss1, ts1, k1) = Inr (rep', ss', ts', k')"
    by (auto split: sum.splits)
  from simulate_slice_invariant [OF step Cons.prems(2)]
  show ?case by (rule Cons.IH [OF rest])
qed

text \<open>
  Claim C4.  A station created by the constructor, after any sequence of \<^verbatim>\<open>attach\<close>,
  \<^verbatim>\<open>release\<close> and \<^verbatim>\<open>cycle\<close> calls (returned or raised), has an attached truck if and only
  if it is busy.  The stations the scheduler creates have the property, and the scheduler
  keeps it: it holds of every station at every boundary between two time slices of a run.
\<close>

theorem attached_truck_iff_BUSY:
  "station_invariant (foldl after_station_op (Station_init p nm vb) ops)
   \<and> (\<forall>s \<in> set (initialize_unloading_stations p). station_invariant s)
   \<and> ((\<forall>s \<in> set ss. station_invariant s) \<longrightarrow>
        simulate_slices rng slices (rep, ss, ts, k) = Inr (rep', ss', ts', k') \<longrightarrow>
        (\<forall>s \<in> set ss'. station_invariant s))"
  using station_invariant_ops [OF station_invariant_init] simulate_slices_invariant
  by (auto simp: initialize_unloading_stations_def station_invariant_init)

theorem attached_truck_iff_BUSY_witness:
  "list_all station_invariant hourly_stations
   \<and> succeeded (simulate_slices example_rng [0, 1, 2, 3] hourly_start)
   \<and> map station_state (final_stations (simulate_slices example_rng [0, 1, 2, 3] hourly_start))
       = [BUSY]
   \<and> list_all station_invariant
         (final_stations (simulate_slices example_rng [0, 1, 2, 3] hourly_start))"
proof -
  have init: "list_all station_invariant hourly_stations"
    by code_simp
  have ok: "succeeded (simulate_slices example_rng [0, 1, 2, 3] hourly_start)"
    by code_simp
  have busy: "map station_state
      (final_stations (simulate_slices example_rng [0, 1, 2, 3] hourly_start)) = [BUSY]"
    by code_simp
  from ok obtain rep' ss' ts' k' where
    run: "simulate_slices example_rng [0, 1, 2, 3]
            (initialize_time_slice_report, hourly_stations, hourly_trucks, 2)
          = Inr (rep', ss', ts', k')"
    by (auto simp: succeeded_def hourly_start_def split: sum.splits)
  from attached_truck_iff_BUSY [of hourly_parameters "[]" False "[]" hourly_stations
      example_rng "[0, 1, 2, 3]" initialize_time_slice_report hourly_trucks 2 rep' ss' ts' k']
    init run
  have "\<forall>s \<in> set ss'. station_invariant s" by (simp add: list_all_iff)
  with run have "list_all station_invariant
      (final_stations (simulate_slices example_rng [0, 1, 2, 3] hourly_start))"
    by (simp add: final_stations_def hourly_start_def list_all_iff)
  with init ok busy show ?thesis by blast
qed

section \<open>Trucks\<close>

lemma Truck_cycle_countdown:
  "remaining_time t \<noteq> 0 \<Longrightarrow>
   Truck_cycle rng self t ss k =
     Inr (t\<lparr>remaining_time := remaining_time t - slice_time (truck_parameters t)\<rparr>, ss, k)"
  by (simp add: Truck_cycle_def)

lemma Truck_cycle_from_mining:
  "remaining_time t = 0 \<Longrightarrow> truck_state t = MINING \<Longrightarrow>
   Truck_cycle rng self t ss k = Inr (transition_from_mining t, ss, k)"
  by (simp add: Truck_cycle_def)

lemma Truck_cycle_from_unloading:
  "remaining_time t = 0 \<Longrightarrow> truck_state t = UNLOADING \<Longrightarrow>
   Truck_cycle rng self t ss k = Inr (transition_from_unloading t, ss, k)"
  by (simp add: Truck_cycle_def)

lemma Truck_cycle_from_outbound:
  "remaining_time t = 0 \<Longrightarrow> truck_state t = TRAVELING_TO_MINE \<Longrightarrow>
   min_mining_hours (truck_parameters t) \<le> max_mining_hours (truck_parameters t) \<Longrightarrow>
   Truck_cycle rng self t ss k =
     Inr ((log_add t TRAVELING_TO_MINE (outbound_travel_time (truck_parameters t)))
            \<lparr>truck_state := MINING, remaining_time := rng k * 60,
             current_cycle_mining_time := rng k * 60\<rparr>, ss, Suc k)"
  by (simp add: Truck_cycle_def transition_from_outbound_def generate_mining_time_def Let_def)

lemma Truck_cycle_from_inbound:
  "remaining_time t = 0 \<Longrightarrow> truck_state t = TRAVELING_TO_STATION \<Longrightarrow>
   Truck_cycle rng self t ss k =
     (case transition_from_inbound self t ss of
        Inl e \<Rightarrow> Inl e | Inr (t', ss') \<Rightarrow> Inr (t', ss', k))"
  by (simp add: Truck_cycle_def)

lemma Truck_cycle_from_idle:
  "remaining_time t = 0 \<Longrightarrow> truck_state t = IDLE \<Longrightarrow>
   Truck_cycle rng self t ss k =
     (case transition_from_inbound self
             (log_add t IDLE (idle_wait_time (truck_parameters t))) ss of
        Inl e \<Rightarrow> Inl e | Inr (t', ss') \<Rightarrow> Inr (t', ss', k))"
  by (simp add: Truck_cycle_def transition_from_idle_def)

lemma log_add_simps [simp]:
  "truck_parameters (log_add t st d) = truck_parameters t"
  "truck_state (log_add t st d) = truck_state t"
  "remaining_time (log_add t st d) = remaining_time t"
  "completed_loads (log_add t st d) = completed_loads t"
  "current_cycle_mining_time (log_add t st d) = current_cycle_mining_time t"
  "time_logs (log_add t st d) = (time_logs t)(st := time_logs t st + d)"
  by (simp_all add: log_add_def)

lemma log_add_verbose [simp]: "truck_verbose (log_add t st d) = truck_verbose t"
  by (simp add: log_add_def)

lemma transition_from_inbound_cases:
  assumes "transition_from_inbound self t ss = Inr (t', ss')"
  obtains (available) i where "i < length ss"
      "t' = (log_add t TRAVELING_TO_STATION (inbound_travel_time (truck_parameters t)))
              \<lparr>truck_state := UNLOADING,
               remaining_time := unloading_time (truck_parameters t)\<rparr>"
      "ss' = ss[i := attach (ss ! i) self]"
  | (none)
      "t' = (log_add t TRAVELING_TO_STATION (inbound_travel_time (truck_parameters t)))
              \<lparr>truck_state := IDLE, remaining_time := idle_wait_time (truck_parameters t)\<rparr>"
      "ss' = ss"
proof -
  let ?t1 = "log_add t TRAVELING_TO_STATION (inbound_travel_time (truck_parameters t))"
  from assms obtain r where r: "get_available_station ?t1 ss = Inr r"
    by (auto simp: transition_from_inbound_def Let_def split: sum.splits)
  show ?thesis
  proof (cases r)
    case None
    with r assms that(2) show ?thesis
      by (simp add: transition_from_inbound_def Let_def)
  next
    case (Some i)
    with r have "i < length ss" by (simp add: get_available_station_Some)
    with Some r assms that(1) show ?thesis
      by (simp add: transition_from_inbound_def Let_def)
  qed
qed

lemma transition_from_inbound_succeeds:
  assumes "scan_safe t ss"
  shows "\<exists>t' ss'. transition_from_inbound self t ss = Inr (t', ss')"
proof -
  let ?t1 = "log_add t TRAVELING_TO_STATION (inbound_travel_time (truck_parameters t))"
  have "\<exists>r. get_available_station t ss = Inr r"
    using assms
    by (induction ss) (auto simp: scan_safe_def station_invariant_def)
  then obtain r where "get_available_station ?t1 ss = Inr r"
    using get_available_station_verbose [of ?t1 t ss] by auto
  then show ?thesis
    by (cases r) (simp_all add: transition_from_inbound_def Let_def)
qed

lemma Truck_cycle_cases:
  assumes "Truck_cycle rng self t ss k = Inr (t', ss', k')"
  obtains
    (countdown) "remaining_time t \<noteq> 0"
      "t' = t\<lparr>remaining_time := remaining_time t - slice_time (truck_parameters t)\<rparr>"
  | (mining) "remaining_time t = 0" "truck_state t = MINING" "t' = transition_from_mining t"
  | (inbound) "remaining_time t = 0" "truck_state t = TRAVELING_TO_STATION"
      "transition_from_inbound self t ss = Inr (t', ss')"
  | (unloading) "remaining_time t = 0" "truck_state t = UNLOADING"
      "t' = transition_from_unloading t"
  | (idle) "remaining_time t = 0" "truck_state t = IDLE"
      "transition_from_inbound self
         (log_add t IDLE (idle_wait_time (truck_parameters t))) ss = Inr (t', ss')"
  | (outbound) "remaining_time t = 0" "truck_state t = TRAVELING_TO_MINE"
      "min_mining_hours (truck_parameters t) \<le> max_mining_hours (truck_parameters t)"
      "t' = (log_add t TRAVELING_TO_MINE (outbound_travel_time (truck_parameters t)))
            \<lparr>truck_state := MINING, remaining_time := rng k * 60,
             current_cycle_mining_time := rng k * 60\<rparr>"
proof (cases "remaining_time t = 0")
  case False
  with assms that(1) show ?thesis by (simp add: Truck_cycle_countdown)
next
  case True
  show ?thesis
  proof (cases "truck_state t")
    case IDLE
    with True assms that(5) show ?thesis
      by (auto simp: Truck_cycle_from_idle split: sum.splits)
  next
    case MINING
    with True assms that(2) show ?thesis by (simp add: Truck_cycle_from_mining)
  next
    case UNLOADING
    with True assms that(4) show ?thesis by (simp add: Truck_cycle_from_unloading)
  next
    case TRAVELING_TO_MINE
    show ?thesis
    proof (cases "min_mining_hours (truck_parameters t) \<le> max_mining_hours (truck_parameters t)")
      case le: True
      with True TRAVELING_TO_MINE assms that(6) show ?thesis
        by (simp add: Truck_cycle_from_outbound)
    next
      case False
      with True TRAVELING_TO_MINE assms show ?thesis
        by (simp add: Truck_cycle_def transition_from_outbound_def generate_mining_time_def
            Let_def)
    qed
  next
    case TRAVELING_TO_STATION
    with True assms that(3) show ?thesis
      by (auto simp: Truck_cycle_from_inbound split: sum.splits)
  qed
qed

lemma Truck_cycle_parameters:
  assumes "Truck_cycle rng self t ss k = Inr (t', ss', k')"
  shows "truck_parameters t' = truck_parameters t \<and> truck_verbose t' = truck_verbose t"
  using assms
proof (cases rule: Truck_cycle_cases)
  case inbound
  from inbound(3) show ?thesis by (cases rule: transition_from_inbound_cases) simp_all
next
  case idle
  from idle(3) show ?thesis by (cases rule: transition_from_inbound_cases) simp_all
qed (simp_all add: transition_from_mining_def transition_from_unloading_def)

lemma slice_multiple_diff:
  assumes "slice_multiple p d" and "d \<noteq> 0"
  shows "slice_multiple p (d - slice_time p)"
proof -
  from assms obtain m where m: "d = slice_time p * m" and pos: "0 < d"
    by (auto simp: slice_multiple_def dvd_def)
  have dv: "slice_time p dvd d - slice_time p"
    using assms(1) by (simp add: slice_multiple_def)
  have "0 \<le> d - slice_time p"
  proof (cases "0 < slice_time p")
    case True
    with pos m have "0 < m" by (simp add: zero_less_mult_iff)
    then have "1 \<le> m" by simp
    with True have "slice_time p * 1 \<le> slice_time p * m"
      by (intro mult_left_mono) simp_all
    with m show ?thesis by simp
  next
    case False
    with pos show ?thesis by simp
  qed
  with dv show ?thesis by (simp add: slice_multiple_def)
qed

lemma Truck_cycle_slice_multiple:
  assumes "Truck_cycle rng self t ss k = Inr (t', ss', k')"
    and "durations_in_slices (truck_parameters t)"
    and "draws_in_slices (truck_parameters t) rng"
    and "slice_multiple (truck_parameters t) (remaining_time t)"
  shows "slice_multiple (truck_parameters t) (remaining_time t')"
  using assms(1)
proof (cases rule: Truck_cycle_cases)
  case countdown
  with assms(4) show ?thesis by (simp add: slice_multiple_diff)
next
  case mining
  with assms(2) show ?thesis by (simp add: transition_from_mining_def durations_in_slices_def)
next
  case inbound
  from inbound(3) assms(2) show ?thesis
    by (cases rule: transition_from_inbound_cases) (simp_all add: durations_in_slices_def)
next
  case unloading
  with assms(2) show ?thesis
    by (simp add: transition_from_unloading_def durations_in_slices_def)
next
  case idle
  from idle(3) assms(2) show ?thesis
    by (cases rule: transition_from_inbound_cases) (simp_all add: durations_in_slices_def)
next
  case outbound
  with assms(3) show ?thesis by (simp add: draws_in_slices_def)
qed

lemma Truck_cycles_slice_multiple:
  "Truck_cycles rng self t sss k = Inr (t', k') \<Longrightarrow>
   durations_in_slices (truck_parameters t) \<Longrightarrow>
   draws_in_slices (truck_parameters t) rng \<Longrightarrow>
   slice_multiple (truck_parameters t) (remaining_time t) \<Longrightarrow>
   slice_multiple (truck_parameters t) (remaining_time t')"
proof (induction sss arbitrary: t k)
  case Nil
  then show ?case by simp
next
  case (Cons ss sss)
  from Cons.prems(1) obtain t1 ss1 k1 where
    step: "Truck_cycle rng self t ss k = Inr (t1, ss1, k1)" and
    rest: "Truck_cycles rng self t1 sss k1 = Inr (t', k')"
    by (auto split: sum.splits)
  have par: "truck_parameters t1 = truck_parameters t"
    using Truck_cycle_parameters [OF step] by simp
  have "slice_multiple (truck_parameters t) (remaining_time t1)"
    using step Cons.prems(2-4) by (rule Truck_cycle_slice_multiple)
  with Cons.IH [OF rest] Cons.prems(2,3) par show ?case by simp
qed

lemma Truck_cycle_succeeds:
  assumes "min_mining_hours (truck_parameters t) \<le> max_mining_hours (truck_parameters t)"
    and "scan_safe t ss"
  shows "\<exists>t' ss' k'. Truck_cycle rng self t ss k = Inr (t', ss', k')"
proof -
  from assms(2) obtain ta sa where
    a: "transition_from_inbound self t ss = Inr (ta, sa)"
    using transition_from_inbound_succeeds by blast
  from assms(2) have "scan_safe (log_add t IDLE (idle_wait_time (truck_parameters t))) ss"
    by (simp add: scan_safe_def)
  then obtain tb sb where
    b: "transition_from_inbound self
          (log_add t IDLE (idle_wait_time (truck_parameters t))) ss = Inr (tb, sb)"
    using transition_from_inbound_succeeds by blast
  from assms(1) a b show ?thesis
    by (simp add: Truck_cycle_def transition_from_idle_def transition_from_outbound_def
        generate_mining_time_def Let_def split: TruckStatus.splits)
qed

lemma Truck_cycles_succeeds:
  "min_mining_hours (truck_parameters t) \<le> max_mining_hours (truck_parameters t) \<Longrightarrow>
   list_all (scan_safe t) sss \<Longrightarrow>
   \<exists>t' k'. Truck_cycles rng self t sss k = Inr (t', k')"
proof (induction sss arbitrary: t k)
  case Nil
  then show ?case by simp
next
  case (Cons ss sss)
  from Cons.prems have safe: "scan_safe t ss" and safes: "list_all (scan_safe t) sss"
    by simp_all
  from Truck_cycle_succeeds [OF Cons.prems(1) safe] obtain t1 ss1 k1 where
    step: "Truck_cycle rng self t ss k = Inr (t1, ss1, k1)" by blast
  from Truck_cycle_parameters [OF step] have
    par: "truck_parameters t1 = truck_parameters t" and vb: "truck_verbose t1 = truck_verbose t"
    by simp_all
  from par Cons.prems(1)
  have le: "min_mining_hours (truck_parameters t1) \<le> max_mining_hours (truck_parameters t1)"
    by simp
  from safes vb have "list_all (scan_safe t1) sss"
    by (simp add: scan_safe_def list_all_iff)
  from Cons.IH [OF le this, of k1] step show ?case by simp
qed

lemma Truck_init_slice_multiple:
  assumes "Truck_init p nm rng k = Inr (t, k')" and "draws_in_slices p rng"
  shows "truck_parameters t = p \<and> slice_multiple p (remaining_time t)"
  using assms
  by (auto simp: Truck_init_def generate_mining_time_def draws_in_slices_def
      split: if_splits)

text \<open>
  Claim C10.  When every configured duration and every drawn mining time is a non-negative
  multiple of the slice, the remaining time of a truck is one as well, from its
  construction on and after any sequence of \<^verbatim>\<open>cycle\<close> calls.  So the counter is never
  negative, and it is non-zero, the test of the code, exactly when it is positive.  The
  calls all return when the mining bounds are in order and, for a truck that prints
  messages, the busy stations it is given have their trucks attached.
\<close>

theorem remaining_time_slice_multiple:
  "(Truck_init p nm rng k0 = Inr (t0, k1) \<and> draws_in_slices p rng \<longrightarrow>
      truck_parameters t0 = p \<and> slice_multiple p (remaining_time t0))
   \<and> (durations_in_slices (truck_parameters t) \<and> draws_in_slices (truck_parameters t) rng
        \<and> slice_multiple (truck_parameters t) (remaining_time t) \<longrightarrow>
      (min_mining_hours (truck_parameters t) \<le> max_mining_hours (truck_parameters t)
         \<and> list_all (scan_safe t) sss \<longrightarrow>
         succeeded (Truck_cycles rng self t sss k))
      \<and> (\<forall>t' k'. Truck_cycles rng self t sss k = Inr (t', k') \<longrightarrow>
            slice_multiple (truck_parameters t) (remaining_time t')
            \<and> 0 \<le> remaining_time t'
            \<and> (remaining_time t' \<noteq> 0) = (0 < remaining_time t')))"
proof (intro conjI impI allI)
  assume "Truck_init p nm rng k0 = Inr (t0, k1) \<and> draws_in_slices p rng"
  then show "truck_parameters t0 = p" and "slice_multiple p (remaining_time t0)"
    using Truck_init_slice_multiple [of p nm rng k0 t0 k1] by simp_all
next
  assume "min_mining_hours (truck_parameters t) \<le> max_mining_hours (truck_parameters t)
         \<and> list_all (scan_safe t) sss"
  then have "\<exists>t' k'. Truck_cycles rng self t sss k = Inr (t', k')"
    by (intro Truck_cycles_succeeds) simp_all
  then show "succeeded (Truck_cycles rng self t sss k)"
    by (auto simp: succeeded_def)
next
  fix t' k'
  assume h: "durations_in_slices (truck_parameters t) \<and> draws_in_slices (truck_parameters t) rng
        \<and> slice_multiple (truck_parameters t) (remaining_time t)"
    and run: "Truck_cycles rng self t sss k = Inr (t', k')"
  from h have m: "slice_multiple (truck_parameters t) (remaining_time t')"
    by (intro Truck_cycles_slice_multiple [OF run]) simp_all
  then show "slice_multiple (truck_parameters t) (remaining_time t')" .
  from m show "0 \<le> remaining_time t'" by (simp add: slice_multiple_def)
  from m show "(remaining_time t' \<noteq> 0) = (0 < remaining_time t')"
    by (auto simp: slice_multiple_def)
qed

theorem remaining_time_slice_multiple_witness:
  "Truck_init example_parameters ''unnamed'' example_rng 0 = Inr (example_truck, 1)
   \<and> durations_in_slices example_parameters
   \<and> draws_in_slices example_parameters example_rng
   \<and> slice_multiple example_parameters (remaining_time example_truck)
   \<and> min_mining_hours example_parameters \<le> max_mining_hours example_parameters
   \<and> list_all (scan_safe example_truck) (replicate 14 [example_station])
   \<and> succeeded (Truck_cycles example_rng 0 example_truck (replicate 14 [example_station]) 0)
   \<and> map_sum id (remaining_time \<circ> fst)
         (Truck_cycles example_rng 0 example_truck (replicate 14 [example_station]) 0) = Inr 25
   \<and> slice_multiple example_parameters 25"
proof -
  have par: "truck_parameters example_truck = example_parameters"
    by (simp add: example_truck_def)
  have init: "Truck_init example_parameters ''unnamed'' example_rng 0 = Inr (example_truck, 1)"
    by (simp add: Truck_init_def generate_mining_time_def example_truck_def example_rng_def
        example_parameters_def initialize_simulation_definition_def)
  have dur: "durations_in_slices example_parameters"
    by (simp add: durations_in_slices_def slice_multiple_def example_parameters_def
        initialize_simulation_definition_def)
  have draws: "draws_in_slices example_parameters example_rng"
    by (simp add: draws_in_slices_def slice_multiple_def example_parameters_def example_rng_def
        initialize_simulation_definition_def)
  have le: "min_mining_hours example_parameters \<le> max_mining_hours example_parameters"
    by (simp add: example_parameters_def initialize_simulation_definition_def)
  have safe: "list_all (scan_safe example_truck) (replicate 14 [example_station])"
    by (simp add: list_all_iff scan_safe_def example_truck_def)
  have val: "map_sum id (remaining_time \<circ> fst)
         (Truck_cycles example_rng 0 example_truck (replicate 14 [example_station]) 0) = Inr 25"
    by code_simp
  note inst = remaining_time_slice_multiple [of example_parameters "''unnamed''" example_rng 0
      example_truck 1 example_truck "replicate 14 [example_station]" 0 0]
  from inst init draws have m0: "slice_multiple example_parameters (remaining_time example_truck)"
    by blast
  from inst dur draws m0 le par safe
  have ok: "succeeded (Truck_cycles example_rng 0 example_truck (replicate 14 [example_station]) 0)"
    by simp
  then obtain t' k' where
    run: "Truck_cycles example_rng 0 example_truck (replicate 14 [example_station]) 0 = Inr (t', k')"
    by (auto simp: succeeded_def split: sum.splits)
  with val have "remaining_time t' = 25" by simp
  moreover from inst dur draws m0 par run
  have "slice_multiple example_parameters (remaining_time t')" by simp
  ultimately have "slice_multiple example_parameters 25" by simp
  with init dur draws m0 le safe ok val show ?thesis by blast
qed

text \<open>
  Claim C2 at a truck that waits in \<^verbatim>\<open>IDLE\<close> with its counter at zero and finds the one
  station busy.  The cycle re-arms the idle wait and credits the five minutes of the wait
  to \<^verbatim>\<open>IDLE\<close>, the state left; through \<^verbatim>\<open>transition_from_inbound\<close> it also credits the
  thirty minutes of inbound travel to \<^verbatim>\<open>TRAVELING_TO_STATION\<close>, a state the truck was not in.
\<close>

theorem Truck_cycle_from_idle_credits:
  "remaining_time waiting_truck = 0 \<and> truck_state waiting_truck = IDLE
   \<and> time_logs waiting_truck IDLE = 0 \<and> time_logs waiting_truck TRAVELING_TO_STATION = 0
   \<and> Truck_cycle example_rng 0 waiting_truck [busy_station] 0
       = Inr (waiting_truck
                \<lparr>time_logs := (time_logs waiting_truck)(IDLE := 5, TRAVELING_TO_STATION := 30),
                 remaining_time := 5\<rparr>,
              [busy_station], 0)"
  by (simp add: Truck_cycle_def transition_from_idle_def transition_from_inbound_def
      log_add_def Let_def waiting_truck_def example_truck_def busy_station_def
      example_station_def example_parameters_def Station_init_def attach_def
      initialize_simulation_definition_def)

subsection \<open>Accounting\<close>

lemma total_time_logs_log_add [simp]:
  "total_time_logs (log_add t st d) = total_time_logs t + d"
  by (cases st) (simp_all add: total_time_logs_def)

lemma total_time_logs_update [simp]:
  "total_time_logs (t\<lparr>remaining_time := r\<rparr>) = total_time_logs t"
  "total_time_logs (t\<lparr>truck_state := s\<rparr>) = total_time_logs t"
  "total_time_logs (t\<lparr>completed_loads := c\<rparr>) = total_time_logs t"
  "total_time_logs (t\<lparr>current_cycle_mining_time := m\<rparr>) = total_time_logs t"
  by (simp_all add: total_time_logs_def)

lemma state_duration_remaining_time [simp]:
  "state_duration (t\<lparr>remaining_time := r\<rparr>) = state_duration t"
  by (cases "truck_state t") (simp_all add: state_duration_def)

lemma Truck_cycle_accounted:
  assumes "Truck_cycle rng self t ss k = Inr (t', ss', k')"
    and "\<not> (remaining_time t = 0 \<and> truck_state t = IDLE)"
  shows "accounted_minutes t' =
     accounted_minutes t + (if remaining_time t = 0 then 0 else slice_time (truck_parameters t))"
  using assms(1)
proof (cases rule: Truck_cycle_cases)
  case countdown
  then show ?thesis by (simp add: accounted_minutes_def)
next
  case mining
  then show ?thesis
    by (simp add: accounted_minutes_def state_duration_def transition_from_mining_def)
next
  case inbound
  from inbound(3) inbound(1,2) show ?thesis
    by (cases rule: transition_from_inbound_cases)
      (simp_all add: accounted_minutes_def state_duration_def)
next
  case unloading
  then show ?thesis
    by (simp add: accounted_minutes_def state_duration_def transition_from_unloading_def)
next
  case idle
  with assms(2) show ?thesis by simp
next
  case outbound
  then show ?thesis by (simp add: accounted_minutes_def state_duration_def)
qed

lemma cycle_trucks_nth:
  "cycle_trucks rng j ts ss k c = Inr (ts', ss', k', c') \<Longrightarrow>
   length ts' = length ts \<and>
   (\<forall>i < length ts. \<exists>self ssi ki ssi' ki'.
      Truck_cycle rng self (ts ! i) ssi ki = Inr (ts' ! i, ssi', ki'))"
proof (induction ts arbitrary: j ss k c ts')
  case Nil
  then show ?case by simp
next
  case (Cons t ts)
  from Cons.prems obtain t1 ss1 k1 ts1 where
    step: "Truck_cycle rng j t ss k = Inr (t1, ss1, k1)" and
    rest: "cycle_trucks rng (Suc j) ts ss1 k1
             (c(Truck_activity (truck_state t1) := c (Truck_activity (truck_state t1)) + 1))
           = Inr (ts1, ss', k', c')" and
    res: "ts' = t1 # ts1"
    by (auto split: sum.splits prod.splits)
  from Cons.IH [OF rest] have len: "length ts1 = length ts" and
    nth: "\<forall>i < length ts. \<exists>self ssi ki ssi' ki'.
      Truck_cycle rng self (ts ! i) ssi ki = Inr (ts1 ! i, ssi', ki')"
    by simp_all
  show ?case
  proof (intro conjI allI impI)
    show "length ts' = length (t # ts)" using res len by simp
  next
    fix i
    assume "i < length (t # ts)"
    show "\<exists>self ssi ki ssi' ki'.
      Truck_cycle rng self ((t # ts) ! i) ssi ki = Inr (ts' ! i, ssi', ki')"
    proof (cases i)
      case 0
      from step have "\<exists>self ssi ki ssi' ki'.
          Truck_cycle rng self t ssi ki = Inr (t1, ssi', ki')"
        by blast
      with 0 res show ?thesis by simp
    next
      case (Suc i')
      with \<open>i < length (t # ts)\<close> have "i' < length ts" by simp
      with nth Suc res show ?thesis by simp
    qed
  qed
qed

lemma simulate_slice_nth:
  assumes "simulate_slice rng n (rep, ss, ts, k) = Inr (rep', ss', ts', k')"
  shows "length ts' = length ts \<and>
   (\<forall>i < length ts. \<exists>self ssi ki ssi' ki'.
      Truck_cycle rng self (ts ! i) ssi ki = Inr (ts' ! i, ssi', ki'))"
proof -
  from assms obtain cycled c where
    "cycle_trucks rng 0 ts cycled k (\<lambda>_. 0) = Inr (ts', ss', k', c)"
    by (rule simulate_slice_unfold)
  then show ?thesis by (rule cycle_trucks_nth)
qed

lemma slice_accounting:
  "simulate_slices rng slices (rep, ss, ts, k) = Inr (rep', ss', ts', k') \<Longrightarrow>
   i < length ts \<Longrightarrow>
   idle_transitions rng slices (rep, ss, ts, k) i = 0 \<Longrightarrow>
   length ts' = length ts
   \<and> truck_parameters (ts' ! i) = truck_parameters (ts ! i)
   \<and> accounted_minutes (ts' ! i) =
       accounted_minutes (ts ! i)
       + slice_time (truck_parameters (ts ! i))
         * (int (length slices) - int (transition_slices rng slices (rep, ss, ts, k) i))"
proof (induction slices arbitrary: rep ss ts k)
  case Nil
  then show ?case by (simp add: transition_slices_def)
next
  case (Cons n slices)
  from Cons.prems(1) obtain rep1 ss1 ts1 k1 where
    step: "simulate_slice rng n (rep, ss, ts, k) = Inr (rep1, ss1, ts1, k1)" and
    rest: "simulate_slices rng slices (rep1, ss1, ts1, k1) = Inr (rep', ss', ts', k')"
    by (auto split: sum.splits)
  from simulate_slice_nth [OF step] Cons.prems(2) obtain self ssi ki ssi' ki' where
    len1: "length ts1 = length ts" and
    cyc: "Truck_cycle rng self (ts ! i) ssi ki = Inr (ts1 ! i, ssi', ki')"
    by blast
  from Cons.prems(3) step have
    noidle: "\<not> (remaining_time (ts ! i) = 0 \<and> truck_state (ts ! i) = IDLE)" and
    idle1: "idle_transitions rng slices (rep1, ss1, ts1, k1) i = 0"
    by (auto simp: idle_transitions_def trucks_of_def split: if_splits)
  have tr: "transition_slices rng (n # slices) (rep, ss, ts, k) i =
      (if remaining_time (ts ! i) = 0 then 1 else 0)
      + transition_slices rng slices (rep1, ss1, ts1, k1) i"
    using step by (simp add: transition_slices_def trucks_of_def)
  have par: "truck_parameters (ts1 ! i) = truck_parameters (ts ! i)"
    using Truck_cycle_parameters [OF cyc] by simp
  have acc1: "accounted_minutes (ts1 ! i) =
      accounted_minutes (ts ! i)
      + (if remaining_time (ts ! i) = 0 then 0 else slice_time (truck_parameters (ts ! i)))"
    using cyc noidle by (rule Truck_cycle_accounted)
  from Cons.prems(2) len1 have "i < length ts1" by simp
  from Cons.IH [OF rest this idle1] have
    len: "length ts' = length ts1" and
    par': "truck_parameters (ts' ! i) = truck_parameters (ts1 ! i)" and
    acc: "accounted_minutes (ts' ! i) =
       accounted_minutes (ts1 ! i)
       + slice_time (truck_parameters (ts1 ! i))
         * (int (length slices) - int (transition_slices rng slices (rep1, ss1, ts1, k1) i))"
    by simp_all
  from len len1 par par' acc acc1 tr show ?case
    by (simp add: algebra_simps)
qed

lemma Truck_init_accounted:
  "Truck_init p nm rng k = Inr (t, k') \<Longrightarrow> accounted_minutes t = 0"
  by (auto simp: Truck_init_def generate_mining_time_def accounted_minutes_def
      total_time_logs_def state_duration_def split: if_splits)

text \<open>
  Claim C1, as amended.  A truck's accumulators are credited only when it leaves a state,
  and the time slice on which it makes a transition is credited to no state.  A truck is
  constructed with nothing accounted.  After \<open>N\<close> time slices of the scheduler, the sum of
  the truck's five accumulators plus the minutes elapsed in its current state exceeds what
  was accounted before by the slice times \<open>N - T\<close>, where \<open>T\<close> is the number of those
  slices on which the truck made a transition, provided none of them was a transition out
  of \<^verbatim>\<open>IDLE\<close>.
\<close>

theorem time_logs_accounting:
  "(Truck_init p nm rng k0 = Inr (t0, k1) \<longrightarrow> accounted_minutes t0 = 0)
   \<and> (simulate_slices rng slices (rep, ss, ts, k) = Inr (rep', ss', ts', k')
        \<and> i < length ts \<and> idle_transitions rng slices (rep, ss, ts, k) i = 0 \<longrightarrow>
      length ts' = length ts
      \<and> total_time_logs (ts' ! i) + (state_duration (ts' ! i) - remaining_time (ts' ! i)) =
          accounted_minutes (ts ! i)
          + slice_time (truck_parameters (ts ! i))
            * (int (length slices) - int (transition_slices rng slices (rep, ss, ts, k) i)))"
  using Truck_init_accounted [of p nm rng k0 t0 k1]
    slice_accounting [of rng slices rep ss ts k rep' ss' ts' k' i]
  by (simp add: accounted_minutes_def)

text \<open>
  The claim as stated fails on a run of one hour with one truck that mines for an hour:
  after its twelve slices of five minutes the accumulators are all zero.
\<close>

theorem time_logs_accounting_counterexample:
  "length (final_report example_run) = 2 + 12
   \<and> map (slice_time \<circ> truck_parameters) (final_trucks example_run) = [5]
   \<and> map total_time_logs (final_trucks example_run) = [0]
   \<and> (0::int) \<noteq> 12 * 5"
  by code_simp

theorem time_logs_accounting_witness:
  "map accounted_minutes hourly_trucks = [0, 0]
   \<and> succeeded (simulate_slices example_rng [0, 1, 2, 3] hourly_start)
   \<and> (0::nat) < length hourly_trucks
   \<and> idle_transitions example_rng [0, 1, 2, 3] hourly_start 0 = 0
   \<and> transition_slices example_rng [0, 1, 2, 3] hourly_start 0 = 2
   \<and> slice_time (truck_parameters (hourly_trucks ! 0)) = 60
   \<and> total_time_logs (final_trucks (simulate_slices example_rng [0, 1, 2, 3] hourly_start) ! 0)
       + (state_duration (final_trucks (simulate_slices example_rng [0, 1, 2, 3] hourly_start) ! 0)
          - remaining_time (final_trucks (simulate_slices example_rng [0, 1, 2, 3] hourly_start) ! 0))
       = 60 * (4 - 2)"
proof -
  have acc0: "map accounted_minutes hourly_trucks = [0, 0]"
    by code_simp
  have ok: "succeeded (simulate_slices example_rng [0, 1, 2, 3] hourly_start)"
    by code_simp
  have len: "(0::nat) < length hourly_trucks"
    by code_simp
  have idle: "idle_transitions example_rng [0, 1, 2, 3] hourly_start 0 = 0"
    by code_simp
  have tr: "transition_slices example_rng [0, 1, 2, 3] hourly_start 0 = 2"
    by code_simp
  have sl: "slice_time (truck_parameters (hourly_trucks ! 0)) = 60"
    by code_simp
  from ok obtain rep' ss' ts' k' where
    run: "simulate_slices example_rng [0, 1, 2, 3]
            (initialize_time_slice_report, hourly_stations, hourly_trucks, 2)
          = Inr (rep', ss', ts', k')"
    by (auto simp: succeeded_def hourly_start_def split: sum.splits)
  have a0: "accounted_minutes (hourly_trucks ! 0) = 0"
    by code_simp
  from time_logs_accounting [of hourly_parameters "[]" example_rng 0 "hourly_trucks ! 0" 1
      "[0, 1, 2, 3]" initialize_time_slice_report hourly_stations hourly_trucks 2
      rep' ss' ts' k' 0]
    run len idle tr sl a0
  have "total_time_logs (ts' ! 0) + (state_duration (ts' ! 0) - remaining_time (ts' ! 0))
      = 60 * (4 - 2)"
    by (simp add: hourly_start_def)
  with run have "total_time_logs
        (final_trucks (simulate_slices example_rng [0, 1, 2, 3] hourly_start) ! 0)
       + (state_duration (final_trucks (simulate_slices example_rng [0, 1, 2, 3] hourly_start) ! 0)
          - remaining_time (final_trucks (simulate_slices example_rng [0, 1, 2, 3] hourly_start) ! 0))
       = 60 * (4 - 2)"
    by (simp add: final_trucks_def hourly_start_def)
  with acc0 ok len idle tr sl show ?thesis by blast
qed

section \<open>Efficiency percentages\<close>








section \<open>The number of time slices and the configuration\<close>

lemma Station_cycle_returns:
  "station_invariant s \<Longrightarrow> snd (Station_cycle s) = None"
  by (auto simp: station_invariant_def Station_cycle_def release_def)

lemma cycle_stations_succeeds:
  "\<forall>s \<in> set ss. station_invariant s \<Longrightarrow> \<exists>ss'. cycle_stations ss = Inr ss'"
proof (induction ss)
  case Nil
  then show ?case by simp
next
  case (Cons s ss)
  from Cons.prems have "snd (Station_cycle s) = None" by (simp add: Station_cycle_returns)
  then obtain s1 where "Station_cycle s = (s1, None)" by (cases "Station_cycle s") auto
  moreover from Cons obtain ss1 where "cycle_stations ss = Inr ss1" by auto
  ultimately show ?case by simp
qed

lemma Truck_cycle_bounds:
  "Truck_cycle rng self t ss k = Inr (t', ss', k') \<Longrightarrow> bounds_ordered t \<Longrightarrow> bounds_ordered t'"
  using Truck_cycle_parameters [of rng self t ss k t' ss' k'] by (simp add: bounds_ordered_def)

lemma cycle_trucks_succeeds:
  "\<forall>t \<in> set ts. bounds_ordered t \<Longrightarrow> \<forall>s \<in> set ss. station_invariant s \<Longrightarrow>
   \<exists>ts' ss' k' c'. cycle_trucks rng i ts ss k c = Inr (ts', ss', k', c')
      \<and> (\<forall>t \<in> set ts'. bounds_ordered t)"
proof (induction ts arbitrary: i ss k c)
  case Nil
  then show ?case by simp
next
  case (Cons t ts)
  from Cons.prems have b: "bounds_ordered t" and safe: "scan_safe t ss"
    by (simp_all add: scan_safe_def list_all_iff)
  from Truck_cycle_succeeds [OF b [unfolded bounds_ordered_def] safe] obtain t1 ss1 k1 where
    step: "Truck_cycle rng i t ss k = Inr (t1, ss1, k1)" by blast
  from Truck_cycle_invariant [OF step Cons.prems(2)]
  have inv1: "\<forall>s \<in> set ss1. station_invariant s" .
  from Truck_cycle_bounds [OF step b] have b1: "bounds_ordered t1" .
  from Cons.prems(1) have "\<forall>t \<in> set ts. bounds_ordered t" by simp
  from Cons.IH [OF this inv1, of "Suc i" k1
      "c(Truck_activity (truck_state t1) := c (Truck_activity (truck_state t1)) + 1)"]
  obtain ts1 ss2 k2 c2 where
    rest: "cycle_trucks rng (Suc i) ts ss1 k1
             (c(Truck_activity (truck_state t1) := c (Truck_activity (truck_state t1)) + 1))
           = Inr (ts1, ss2, k2, c2)" and
    b2: "\<forall>t \<in> set ts1. bounds_ordered t"
    by blast
  from step rest b1 b2 show ?case by simp
qed

lemma simulate_slice_succeeds:
  assumes "\<forall>t \<in> set ts. bounds_ordered t" and "\<forall>s \<in> set ss. station_invariant s"
  shows "\<exists>rep' ss' ts' k'. simulate_slice rng n (rep, ss, ts, k) = Inr (rep', ss', ts', k')
      \<and> (\<forall>t \<in> set ts'. bounds_ordered t) \<and> (\<forall>s \<in> set ss'. station_invariant s)"
proof -
  from cycle_stations_succeeds [OF assms(2)] obtain cycled where
    st: "cycle_stations ss = Inr cycled" by blast
  from cycle_stations_invariant [OF st assms(2)]
  have inv: "\<forall>s \<in> set cycled. station_invariant s" .
  from cycle_trucks_succeeds [OF assms(1) inv, of rng 0 k "\<lambda>_. 0"]
  obtain ts' ss' k' c' where
    tr: "cycle_trucks rng 0 ts cycled k (\<lambda>_. 0) = Inr (ts', ss', k', c')" and
    b: "\<forall>t \<in> set ts'. bounds_ordered t"
    by blast
  from cycle_trucks_invariant [OF tr inv] have "\<forall>s \<in> set ss'. station_invariant s" .
  with st tr b show ?thesis by (simp add: simulate_slice_def Let_def)
qed

lemma simulate_slices_succeeds:
  "\<forall>t \<in> set ts. bounds_ordered t \<Longrightarrow> \<forall>s \<in> set ss. station_invariant s \<Longrightarrow>
   \<exists>w'. simulate_slices rng slices (rep, ss, ts, k) = Inr w'"
proof (induction slices arbitrary: rep ss ts k)
  case Nil
  then show ?case by simp
next
  case (Cons n slices)
  from simulate_slice_succeeds [OF Cons.prems, of rng n rep k]
  obtain rep1 ss1 ts1 k1 where
    step: "simulate_slice rng n (rep, ss, ts, k) = Inr (rep1, ss1, ts1, k1)" and
    b: "\<forall>t \<in> set ts1. bounds_ordered t" and inv: "\<forall>s \<in> set ss1. station_invariant s"
    by blast
  from Cons.IH [OF b inv, of rep1 k1] step show ?case by simp
qed

lemma simulate_slice_rows:
  "simulate_slice rng n (rep, ss, ts, k) = Inr (rep', ss', ts', k') \<Longrightarrow>
   length rep' = Suc (length rep)"
  by (auto simp: simulate_slice_def Let_def split: sum.splits prod.splits)

lemma simulate_slices_rows:
  "simulate_slices rng slices (rep, ss, ts, k) = Inr (rep', ss', ts', k') \<Longrightarrow>
   length rep' = length rep + length slices"
proof (induction slices arbitrary: rep ss ts k)
  case Nil
  then show ?case by simp
next
  case (Cons n slices)
  from Cons.prems obtain rep1 ss1 ts1 k1 where
    step: "simulate_slice rng n (rep, ss, ts, k) = Inr (rep1, ss1, ts1, k1)" and
    rest: "simulate_slices rng slices (rep1, ss1, ts1, k1) = Inr (rep', ss', ts', k')"
    by (auto split: sum.splits)
  from simulate_slice_rows [OF step] Cons.IH [OF rest] show ?case by simp
qed

lemma trunc_div_divisor:
  assumes "0 < s" and "s dvd 60" and "0 \<le> h"
  shows "int (nat (h * trunc_div 60 s)) = h * 60 div s"
proof -
  from assms(1) have t: "trunc_div 60 s = 60 div s" by (simp add: trunc_div_def)
  from assms(1) have "0 \<le> (60::int) div s" by (simp add: pos_imp_zdiv_nonneg_iff)
  with assms(3) have "0 \<le> h * (60 div s)" by simp
  moreover from assms(2) have "h * (60 div s) = h * 60 div s" by (simp add: div_mult_swap)
  ultimately show ?thesis using t by simp
qed

text \<open>
  Claim C5, as amended.  A slice of zero makes the run fail with a division by zero; no
  other configuration is rejected.  Otherwise the run returns (given stations with their
  trucks attached exactly when busy, and trucks whose mining bounds are in order) and
  appends one data row per time slice, \<open>run_hours\<close> times the quotient of 60 by the slice
  truncated towards zero, none when that product is negative.  The number is
  \<open>run_hours * 60 / slice_time\<close> when the run length is not negative and the slice is a
  positive divisor of 60.
\<close>

theorem number_of_time_slices:
  "(slice_time p = 0 \<longrightarrow> run_simulation p ss ts rng k = Inl ZeroDivisionError)
   \<and> (slice_time p \<noteq> 0 \<and> list_all station_invariant ss \<and> list_all bounds_ordered ts \<longrightarrow>
        succeeded (run_simulation p ss ts rng k))
   \<and> (\<forall>rep ss' ts' k'. run_simulation p ss ts rng k = Inr (rep, ss', ts', k') \<longrightarrow>
        length rep = 2 + nat (run_hours p * trunc_div 60 (slice_time p)))
   \<and> (0 < slice_time p \<and> slice_time p dvd 60 \<and> 0 \<le> run_hours p \<longrightarrow>
        int (nat (run_hours p * trunc_div 60 (slice_time p)))
          = run_hours p * 60 div slice_time p)"
proof (intro conjI impI allI)
  assume "slice_time p = 0"
  then show "run_simulation p ss ts rng k = Inl ZeroDivisionError"
    by (simp add: run_simulation_def run_time_slices_def)
next
  assume h: "slice_time p \<noteq> 0 \<and> list_all station_invariant ss \<and> list_all bounds_ordered ts"
  then have "\<exists>w'. simulate_slices rng
        (map int [0..<nat (run_hours p * trunc_div 60 (slice_time p))])
        (initialize_time_slice_report, ss, ts, k) = Inr w'"
    by (intro simulate_slices_succeeds) (simp_all add: list_all_iff)
  with h show "succeeded (run_simulation p ss ts rng k)"
    by (auto simp: run_simulation_def run_time_slices_def succeeded_def)
next
  fix rep ss' ts' k'
  assume run: "run_simulation p ss ts rng k = Inr (rep, ss', ts', k')"
  then have "simulate_slices rng
        (map int [0..<nat (run_hours p * trunc_div 60 (slice_time p))])
        (initialize_time_slice_report, ss, ts, k) = Inr (rep, ss', ts', k')"
    by (auto simp: run_simulation_def run_time_slices_def split: if_splits)
  from simulate_slices_rows [OF this]
  show "length rep = 2 + nat (run_hours p * trunc_div 60 (slice_time p))"
    by (simp add: initialize_time_slice_report_def)
next
  assume "0 < slice_time p \<and> slice_time p dvd 60 \<and> 0 \<le> run_hours p"
  then have "0 < slice_time p" and "slice_time p dvd 60" and "0 \<le> run_hours p"
    by simp_all
  then show "int (nat (run_hours p * trunc_div 60 (slice_time p)))
      = run_hours p * 60 div slice_time p"
    by (rule trunc_div_divisor)
qed

text \<open>
  The claim as stated fails for a slice of seven minutes.  A run of one hour is not
  rejected, although 60 is no multiple of 7, and has eight data rows; a run of seven
  hours, where the quotient is the integer 60, has 56.
\<close>

theorem number_of_time_slices_counterexample:
  "\<not> slice_time seven_minute_parameters dvd run_hours seven_minute_parameters * 60
   \<and> succeeded seven_minute_run
   \<and> length (final_report seven_minute_run) = 2 + 8
   \<and> (7::int) dvd 7 * 60 \<and> (7::int) * 60 div 7 = 60
   \<and> succeeded seven_hour_run
   \<and> length (final_report seven_hour_run) = 2 + 56"
  by code_simp

theorem number_of_time_slices_witness:
  "slice_time example_parameters \<noteq> 0
   \<and> list_all station_invariant example_stations
   \<and> list_all bounds_ordered example_trucks
   \<and> succeeded example_run
   \<and> 0 < slice_time example_parameters \<and> slice_time example_parameters dvd 60
   \<and> 0 \<le> run_hours example_parameters
   \<and> length (final_report example_run) = 2 + 12
   \<and> run_hours example_parameters * 60 div slice_time example_parameters = 12"
proof -
  have s: "slice_time example_parameters \<noteq> 0" "0 < slice_time example_parameters"
    "slice_time example_parameters dvd 60" "0 \<le> run_hours example_parameters"
    "run_hours example_parameters * 60 div slice_time example_parameters = 12"
    by (simp_all add: example_parameters_def initialize_simulation_definition_def)
  have inv: "list_all station_invariant example_stations" by code_simp
  have b: "list_all bounds_ordered example_trucks" by code_simp
  note inst = number_of_time_slices [of example_parameters example_stations example_trucks
      example_rng 1]
  from inst s(1) inv b have ok: "succeeded example_run"
    by (simp add: example_run_def)
  then obtain rep ss' ts' k' where
    run: "run_simulation example_parameters example_stations example_trucks example_rng 1
          = Inr (rep, ss', ts', k')"
    by (auto simp: succeeded_def example_run_def split: sum.splits)
  with inst have "length rep = 2 + nat (run_hours example_parameters
      * trunc_div 60 (slice_time example_parameters))"
    by blast
  moreover have "nat (run_hours example_parameters
      * trunc_div 60 (slice_time example_parameters)) = 12"
  proof -
    from inst s(2,3,4) have "int (nat (run_hours example_parameters
        * trunc_div 60 (slice_time example_parameters)))
        = run_hours example_parameters * 60 div slice_time example_parameters"
      by blast
    with s(5) show ?thesis by linarith
  qed
  ultimately have "length rep = 2 + 12" by simp
  with run have "length (final_report example_run) = 2 + 12"
    by (simp add: final_report_def example_run_def)
  with s inv b ok show ?thesis by blast
qed

lemma construct_trucks_ordered:
  "min_mining_hours p \<le> max_mining_hours p \<Longrightarrow>
   \<exists>ts. construct_trucks p rng ns k = Inr (ts, k + length ns) \<and> length ts = length ns"
proof (induction ns arbitrary: k)
  case Nil
  then show ?case by simp
next
  case (Cons n ns)
  from Cons.IH [OF Cons.prems, of "Suc k"] obtain ts where
    "construct_trucks p rng ns (Suc k) = Inr (ts, Suc k + length ns)" "length ts = length ns"
    by blast
  with Cons.prems show ?case
    by (simp add: Truck_init_def generate_mining_time_def)
qed

lemma construct_trucks_reversed:
  "max_mining_hours p < min_mining_hours p \<Longrightarrow> ns \<noteq> [] \<Longrightarrow>
   construct_trucks p rng ns k = Inl ValueError"
  by (cases ns) (simp_all add: Truck_init_def generate_mining_time_def)

lemma initialize_trucks_cases:
  "(max_mining_hours p < min_mining_hours p \<and> 0 < num_trucks p \<longrightarrow>
      initialize_trucks p rng k = Inl ValueError)
   \<and> (\<not> (max_mining_hours p < min_mining_hours p \<and> 0 < num_trucks p) \<longrightarrow>
      (\<exists>ts. initialize_trucks p rng k = Inr (ts, k + nat (num_trucks p))
         \<and> length ts = nat (num_trucks p)))"
proof (intro conjI impI)
  assume "max_mining_hours p < min_mining_hours p \<and> 0 < num_trucks p"
  then show "initialize_trucks p rng k = Inl ValueError"
    by (simp add: initialize_trucks_def construct_trucks_reversed)
next
  assume a: "\<not> (max_mining_hours p < min_mining_hours p \<and> 0 < num_trucks p)"
  show "\<exists>ts. initialize_trucks p rng k = Inr (ts, k + nat (num_trucks p))
         \<and> length ts = nat (num_trucks p)"
  proof (cases "min_mining_hours p \<le> max_mining_hours p")
    case True
    from construct_trucks_ordered [OF this, of rng "[0..<nat (num_trucks p)]" k]
    show ?thesis by (simp add: initialize_trucks_def)
  next
    case False
    with a have "num_trucks p \<le> 0" by simp
    then show ?thesis by (simp add: initialize_trucks_def)
  qed
qed

text \<open>
  Claim C7, as amended.  Constructing a configuration validates nothing and cannot fail:
  run length, truck count and station count are stored as they are given, negative or
  not.  The stations are created without an error, as many as the station count, none for
  a negative one.  Creating the trucks, which happens before the first time slice, fails
  in one case only, with the \<^verbatim>\<open>ValueError\<close> of drawing from an empty range: when
  \<open>max_mining_hours < min_mining_hours\<close> and the truck count is positive; in every other
  case it returns as many trucks as the count, none for a negative one.  The number of
  time slices is computed for every slice but zero, by truncating the quotient of 60 by
  the slice towards zero.
\<close>

theorem configuration_is_not_validated:
  "run_hours (initialize_simulation_definition hours truck_count station_count vt vs) = hours
   \<and> num_trucks (initialize_simulation_definition hours truck_count station_count vt vs)
       = truck_count
   \<and> num_stations (initialize_simulation_definition hours truck_count station_count vt vs)
       = station_count
   \<and> length (initialize_unloading_stations p) = nat (num_stations p)
   \<and> (initialize_trucks p rng k = Inl ValueError)
       = (max_mining_hours p < min_mining_hours p \<and> 0 < num_trucks p)
   \<and> succeeded (initialize_trucks p rng k)
       = (\<not> (max_mining_hours p < min_mining_hours p \<and> 0 < num_trucks p))
   \<and> (\<forall>ts k'. initialize_trucks p rng k = Inr (ts, k') \<longrightarrow>
         length ts = nat (num_trucks p) \<and> k' = k + nat (num_trucks p))
   \<and> (run_time_slices p = Inl ZeroDivisionError) = (slice_time p = 0)
   \<and> (slice_time p \<noteq> 0 \<longrightarrow>
         run_time_slices p = Inr (run_hours p * trunc_div 60 (slice_time p)))"
proof -
  note c = initialize_trucks_cases [of p rng k]
  have 1: "(initialize_trucks p rng k = Inl ValueError)
       = (max_mining_hours p < min_mining_hours p \<and> 0 < num_trucks p)"
    using c by (cases "max_mining_hours p < min_mining_hours p \<and> 0 < num_trucks p") auto
  have 2: "succeeded (initialize_trucks p rng k)
       = (\<not> (max_mining_hours p < min_mining_hours p \<and> 0 < num_trucks p))"
    using c
    by (cases "max_mining_hours p < min_mining_hours p \<and> 0 < num_trucks p")
      (auto simp: succeeded_def)
  have 3: "\<forall>ts k'. initialize_trucks p rng k = Inr (ts, k') \<longrightarrow>
         length ts = nat (num_trucks p) \<and> k' = k + nat (num_trucks p)"
    using c by (cases "max_mining_hours p < min_mining_hours p \<and> 0 < num_trucks p") auto
  have 4: "length (initialize_unloading_stations p) = nat (num_stations p)"
    by (simp add: initialize_unloading_stations_def)
  have 5: "(run_time_slices p = Inl ZeroDivisionError) = (slice_time p = 0)"
    "slice_time p \<noteq> 0 \<longrightarrow>
         run_time_slices p = Inr (run_hours p * trunc_div 60 (slice_time p))"
    by (simp_all add: run_time_slices_def)
  from 1 2 3 4 5 show ?thesis
    by (simp add: initialize_simulation_definition_def)
qed

text \<open>
  The claim as stated fails on a configuration with negative counts, a negative inbound
  travel time, mining bounds in the wrong order and a slice of seven minutes, which
  divides neither the hour nor the unloading time: nothing rejects it.  No truck and no
  station are created, and the run of one hour returns its table, of eight time slices.
\<close>

theorem configuration_is_not_validated_counterexample:
  "num_trucks unchecked_parameters < 0 \<and> num_stations unchecked_parameters < 0
   \<and> inbound_travel_time unchecked_parameters < 0
   \<and> max_mining_hours unchecked_parameters < min_mining_hours unchecked_parameters
   \<and> \<not> slice_time unchecked_parameters dvd unloading_time unchecked_parameters
   \<and> \<not> slice_time unchecked_parameters dvd run_hours unchecked_parameters * 60
   \<and> map_sum id (length \<circ> fst) (initialize_trucks unchecked_parameters example_rng 0) = Inr 0
   \<and> length (initialize_unloading_stations unchecked_parameters) = 0
   \<and> run_time_slices unchecked_parameters = Inr 8
   \<and> succeeded (run_simulation unchecked_parameters [] [] example_rng 0)
   \<and> length (final_report (run_simulation unchecked_parameters [] [] example_rng 0)) = 2 + 8"
  by code_simp

theorem configuration_is_not_validated_witness:
  "slice_time unchecked_parameters \<noteq> 0
   \<and> run_time_slices unchecked_parameters = Inr 8
   \<and> initialize_trucks unchecked_parameters example_rng 0 = Inr ([], 0)
   \<and> length (initialize_unloading_stations unchecked_parameters) = 0
   \<and> max_mining_hours reversed_bounds_parameters < min_mining_hours reversed_bounds_parameters
   \<and> 0 < num_trucks reversed_bounds_parameters
   \<and> initialize_trucks reversed_bounds_parameters example_rng 0 = Inl ValueError"
proof -
  have u: "slice_time unchecked_parameters \<noteq> 0"
    "run_hours unchecked_parameters * trunc_div 60 (slice_time unchecked_parameters) = 8"
    "num_trucks unchecked_parameters = - 1" "num_stations unchecked_parameters = - 1"
    by (simp_all add: unchecked_parameters_def initialize_simulation_definition_def
        trunc_div_def)
  have r: "max_mining_hours reversed_bounds_parameters
        < min_mining_hours reversed_bounds_parameters"
    "0 < num_trucks reversed_bounds_parameters"
    by (simp_all add: reversed_bounds_parameters_def example_parameters_def
        initialize_simulation_definition_def)
  note i1 = configuration_is_not_validated [of 1 "- 1" "- 1" False False
      unchecked_parameters example_rng 0]
  note i2 = configuration_is_not_validated [of 1 1 1 False False
      reversed_bounds_parameters example_rng 0]
  from i1 u have a: "run_time_slices unchecked_parameters = Inr 8" by simp
  from i1 u have b: "length (initialize_unloading_stations unchecked_parameters) = 0"
    by simp
  from i1 u have "succeeded (initialize_trucks unchecked_parameters example_rng 0)"
    by simp
  then obtain ts k' where
    t: "initialize_trucks unchecked_parameters example_rng 0 = Inr (ts, k')"
    by (auto simp: succeeded_def split: sum.splits)
  with i1 u have "length ts = 0 \<and> k' = 0" by simp
  with t have c: "initialize_trucks unchecked_parameters example_rng 0 = Inr ([], 0)"
    by simp
  from i2 r have d: "initialize_trucks reversed_bounds_parameters example_rng 0
      = Inl ValueError"
    by simp
  from u(1) a b c d r show ?thesis by blast
qed

section \<open>Determinism\<close>

lemma Truck_cycle_rng:
  assumes "Truck_cycle rng self t ss k = Inr (t', ss', k')"
    and "k < k' \<longrightarrow> rng' k = rng k"
  shows "k \<le> k' \<and> Truck_cycle rng' self t ss k = Inr (t', ss', k')"
proof (cases "remaining_time t = 0 \<and> truck_state t = TRAVELING_TO_MINE")
  case True
  with assms(1) have le: "min_mining_hours (truck_parameters t) \<le> max_mining_hours (truck_parameters t)"
    by (auto simp: Truck_cycle_def transition_from_outbound_def generate_mining_time_def
        Let_def split: if_splits)
  with True assms(1) have k': "k' = Suc k"
    by (simp add: Truck_cycle_from_outbound)
  with assms(2) have "rng' k = rng k" by simp
  with True le assms(1) k' show ?thesis
    by (simp add: Truck_cycle_from_outbound)
next
  case False
  then have "Truck_cycle rng' self t ss k = Truck_cycle rng self t ss k"
    by (cases "truck_state t") (auto simp: Truck_cycle_def)
  moreover from False assms(1) have "k' = k"
    by (cases "truck_state t") (auto simp: Truck_cycle_def split: if_splits sum.splits)
  ultimately show ?thesis using assms(1) by simp
qed

lemma cycle_trucks_rng:
  "cycle_trucks rng i ts ss k c = Inr (ts', ss', k', c') \<Longrightarrow>
   \<forall>j. k \<le> j \<and> j < k' \<longrightarrow> rng' j = rng j \<Longrightarrow>
   k \<le> k' \<and> cycle_trucks rng' i ts ss k c = Inr (ts', ss', k', c')"
proof (induction ts arbitrary: i ss k c ts')
  case Nil
  then show ?case by simp
next
  case (Cons t ts)
  from Cons.prems(1) obtain t1 ss1 k1 ts1 where
    step: "Truck_cycle rng i t ss k = Inr (t1, ss1, k1)" and
    rest: "cycle_trucks rng (Suc i) ts ss1 k1
             (c(Truck_activity (truck_state t1) := c (Truck_activity (truck_state t1)) + 1))
           = Inr (ts1, ss', k', c')" and
    res: "ts' = t1 # ts1"
    by (auto split: sum.splits prod.splits)
  from Truck_cycle_rng [OF step, of rng] have k1: "k \<le> k1" by simp
  with Cons.prems(2) have agree1: "\<forall>j. k1 \<le> j \<and> j < k' \<longrightarrow> rng' j = rng j" by simp
  from Cons.IH [OF rest agree1] have k': "k1 \<le> k'" and
    rest': "cycle_trucks rng' (Suc i) ts ss1 k1
             (c(Truck_activity (truck_state t1) := c (Truck_activity (truck_state t1)) + 1))
           = Inr (ts1, ss', k', c')"
    by blast+
  from Cons.prems(2) k' have "k < k1 \<longrightarrow> rng' k = rng k" by simp
  with Truck_cycle_rng [OF step, of rng']
  have step': "Truck_cycle rng' i t ss k = Inr (t1, ss1, k1)" by simp
  from k1 k' step' rest' res show ?case by simp
qed

lemma simulate_slice_rng:
  assumes "simulate_slice rng n (rep, ss, ts, k) = Inr (rep', ss', ts', k')"
    and "\<forall>j. k \<le> j \<and> j < k' \<longrightarrow> rng' j = rng j"
  shows "k \<le> k' \<and> simulate_slice rng' n (rep, ss, ts, k) = Inr (rep', ss', ts', k')"
proof -
  from assms(1) obtain cycled c where
    st: "cycle_stations ss = Inr cycled" and
    tr: "cycle_trucks rng 0 ts cycled k (\<lambda>_. 0) = Inr (ts', ss', k', c)"
    by (rule simulate_slice_unfold)
  from cycle_trucks_rng [OF tr assms(2)] have
    "k \<le> k'" "cycle_trucks rng' 0 ts cycled k (\<lambda>_. 0) = Inr (ts', ss', k', c)"
    by simp_all
  with st tr assms(1) show ?thesis
    by (simp add: simulate_slice_def Let_def)
qed

lemma simulate_slices_rng:
  "simulate_slices rng slices (rep, ss, ts, k) = Inr (rep', ss', ts', k') \<Longrightarrow>
   \<forall>j. k \<le> j \<and> j < k' \<longrightarrow> rng' j = rng j \<Longrightarrow>
   k \<le> k' \<and> simulate_slices rng' slices (rep, ss, ts, k) = Inr (rep', ss', ts', k')"
proof (induction slices arbitrary: rep ss ts k)
  case Nil
  then show ?case by simp
next
  case (Cons n slices)
  from Cons.prems(1) obtain rep1 ss1 ts1 k1 where
    step: "simulate_slice rng n (rep, ss, ts, k) = Inr (rep1, ss1, ts1, k1)" and
    rest: "simulate_slices rng slices (rep1, ss1, ts1, k1) = Inr (rep', ss', ts', k')"
    by (auto split: sum.splits)
  from simulate_slice_rng [OF step, of rng] have k1: "k \<le> k1" by simp
  with Cons.prems(2) have agree1: "\<forall>j. k1 \<le> j \<and> j < k' \<longrightarrow> rng' j = rng j" by simp
  from Cons.IH [OF rest agree1] have k': "k1 \<le> k'" and
    rest': "simulate_slices rng' slices (rep1, ss1, ts1, k1) = Inr (rep', ss', ts', k')"
    by simp_all
  from Cons.prems(2) k' have "\<forall>j. k \<le> j \<and> j < k1 \<longrightarrow> rng' j = rng j" by simp
  from simulate_slice_rng [OF step this]
  have "simulate_slice rng' n (rep, ss, ts, k) = Inr (rep1, ss1, ts1, k1)" by simp
  with k1 k' rest' show ?case by simp
qed

lemma construct_trucks_rng:
  "construct_trucks p rng ns k = Inr (ts, k') \<Longrightarrow>
   \<forall>j. k \<le> j \<and> j < k' \<longrightarrow> rng' j = rng j \<Longrightarrow>
   k \<le> k' \<and> construct_trucks p rng' ns k = Inr (ts, k')"
proof (induction ns arbitrary: k ts)
  case Nil
  then show ?case by simp
next
  case (Cons n ns)
  from Cons.prems(1) obtain t1 ts1 where
    init: "Truck_init p (''truck '' @ str_of_nat n) rng k = Inr (t1, Suc k)" and
    rest: "construct_trucks p rng ns (Suc k) = Inr (ts1, k')" and
    res: "ts = t1 # ts1"
    by (auto simp: Truck_init_def generate_mining_time_def split: sum.splits prod.splits if_splits)
  from Cons.prems(2) have agree1: "\<forall>j. Suc k \<le> j \<and> j < k' \<longrightarrow> rng' j = rng j" by simp
  from Cons.IH [OF rest agree1] have k': "Suc k \<le> k'" and
    rest': "construct_trucks p rng' ns (Suc k) = Inr (ts1, k')"
    by simp_all
  from Cons.prems(2) k' have "rng' k = rng k" by simp
  with init have "Truck_init p (''truck '' @ str_of_nat n) rng' k = Inr (t1, Suc k)"
    by (auto simp: Truck_init_def generate_mining_time_def split: if_splits)
  with k' rest' res show ?case by simp
qed

text \<open>
  Claim C8.  A run is a function of the configuration, the stations and trucks it is
  given, and the mining times drawn.  If a run returns, any run from the same
  configuration and entities whose generator draws the same mining times, at every draw
  the first run made, returns the same time-series table (and leaves the same stations,
  trucks and number of draws).  The same holds of the creation of the trucks, which draws
  their first mining times.
\<close>

theorem runs_are_deterministic:
  "(run_simulation p ss ts rng k = Inr (rep, ss', ts', k')
      \<and> (\<forall>j. k \<le> j \<and> j < k' \<longrightarrow> rng' j = rng j) \<longrightarrow>
    run_simulation p ss ts rng' k = Inr (rep, ss', ts', k'))
   \<and> (initialize_trucks p rng k = Inr (ts0, k0)
      \<and> (\<forall>j. k \<le> j \<and> j < k0 \<longrightarrow> rng' j = rng j) \<longrightarrow>
    initialize_trucks p rng' k = Inr (ts0, k0))"
proof (intro conjI impI)
  assume a: "run_simulation p ss ts rng k = Inr (rep, ss', ts', k')
      \<and> (\<forall>j. k \<le> j \<and> j < k' \<longrightarrow> rng' j = rng j)"
  then obtain n where n: "run_time_slices p = Inr n"
    and run: "simulate_slices rng (map int [0..<nat n])
                (initialize_time_slice_report, ss, ts, k) = Inr (rep, ss', ts', k')"
    by (auto simp: run_simulation_def split: sum.splits)
  from a have "\<forall>j. k \<le> j \<and> j < k' \<longrightarrow> rng' j = rng j" by simp
  from simulate_slices_rng [OF run this] n
  show "run_simulation p ss ts rng' k = Inr (rep, ss', ts', k')"
    by (simp add: run_simulation_def)
next
  assume a: "initialize_trucks p rng k = Inr (ts0, k0)
      \<and> (\<forall>j. k \<le> j \<and> j < k0 \<longrightarrow> rng' j = rng j)"
  then have c: "construct_trucks p rng [0..<nat (num_trucks p)] k = Inr (ts0, k0)"
    by (simp add: initialize_trucks_def)
  from a have "\<forall>j. k \<le> j \<and> j < k0 \<longrightarrow> rng' j = rng j" by simp
  from construct_trucks_rng [OF c this]
  show "initialize_trucks p rng' k = Inr (ts0, k0)"
    by (simp add: initialize_trucks_def)
qed

theorem runs_are_deterministic_witness:
  "succeeded nine_hour_run \<and> final_draws nine_hour_run = 3
   \<and> late_rng 2 = example_rng 2 \<and> late_rng 3 \<noteq> example_rng 3
   \<and> run_simulation nine_hour_parameters hourly_stations hourly_trucks late_rng 2
       = nine_hour_run
   \<and> length (final_report nine_hour_run) = 2 + 9"
proof -
  have ok: "succeeded nine_hour_run" by code_simp
  have dr: "final_draws nine_hour_run = 3" by code_simp
  have len: "length (final_report nine_hour_run) = 2 + 9" by code_simp
  have r: "late_rng 2 = example_rng 2" "late_rng 3 \<noteq> example_rng 3"
    by (simp_all add: late_rng_def example_rng_def)
  from ok obtain rep ss' ts' k' where
    run: "run_simulation nine_hour_parameters hourly_stations hourly_trucks example_rng 2
          = Inr (rep, ss', ts', k')"
    by (auto simp: succeeded_def nine_hour_run_def split: sum.splits)
  with dr have k': "k' = 3" by (simp add: final_draws_def nine_hour_run_def)
  have agree: "\<forall>j. 2 \<le> j \<and> j < k' \<longrightarrow> late_rng j = example_rng j"
    using k' by (simp add: late_rng_def example_rng_def)
  from runs_are_deterministic [of nine_hour_parameters hourly_stations hourly_trucks
      example_rng 2 rep ss' ts' k' late_rng] run agree
  have "run_simulation nine_hour_parameters hourly_stations hourly_trucks late_rng 2
      = Inr (rep, ss', ts', k')"
    by blast
  with run have "run_simulation nine_hour_parameters hourly_stations hourly_trucks late_rng 2
      = nine_hour_run"
    by (simp add: nine_hour_run_def)
  with ok dr r len show ?thesis by blast
qed

end
